theory Spec2Isabelle
  imports
    Complex_Main
    "HOL-Library.Multiset"
    "HOL-Library.Char_ord"
    "HOL-Library.List_Lexorder"
begin

section \<open>JavaScript strings\<close>

text \<open>
  A JavaScript string is modelled as a \<^typ>\<open>string\<close>, one \<^typ>\<open>char\<close> per code unit,
  restricted to the code units \<open>0..255\<close>. In that range \<open>toLowerCase\<close> maps the
  letters \<open>A..Z\<close> (65..90) and the upper-case letters of Latin-1 (192..222 without the
  multiplication sign 215) to the code unit 32 above, and leaves every other code unit
  alone; \<open>trim\<close> strips the white space and line terminators of the range (tab, line
  feed, vertical tab, form feed, carriage return, space, no-break space).
  \<open>String.prototype.includes\<close> is the test for a contiguous substring, and the default
  order of \<open>Array.prototype.sort\<close> on strings is the lexicographic order on code units.
\<close>

definition toLowerCaseChar :: "char \<Rightarrow> char" where
  "toLowerCaseChar c =
     (let n = (of_char c :: nat)
      in if (65 \<le> n \<and> n \<le> 90) \<or> (192 \<le> n \<and> n \<le> 222 \<and> n \<noteq> 215)
         then char_of (n + 32) else c)"

definition toLowerCase :: "string \<Rightarrow> string" where
  "toLowerCase s = map toLowerCaseChar s"

definition isWhiteSpace :: "char \<Rightarrow> bool" where
  "isWhiteSpace c = ((of_char c :: nat) \<in> {9, 10, 11, 12, 13, 32, 160})"

definition trim :: "string \<Rightarrow> string" where
  "trim s = rev (dropWhile isWhiteSpace (rev (dropWhile isWhiteSpace s)))"

fun startsWith :: "string \<Rightarrow> string \<Rightarrow> bool" where
  "startsWith s [] = True"
| "startsWith [] (k # ks) = False"
| "startsWith (c # cs) (k # ks) = (c = k \<and> startsWith cs ks)"

fun includes_str :: "string \<Rightarrow> string \<Rightarrow> bool" where
  "includes_str [] k = (k = [])"
| "includes_str (c # cs) k = (startsWith (c # cs) k \<or> includes_str cs k)"

fun join :: "string \<Rightarrow> string list \<Rightarrow> string" where
  "join sep [] = []"
| "join sep [x] = x"
| "join sep (x # y # ys) = x @ sep @ join sep (y # ys)"

section \<open>SmartRoutingEngine\<close>

text \<open>
  \<open>patterns\<close> and \<open>agentCapabilities\<close> are JavaScript \<open>Map\<close>s that are only ever iterated
  with \<open>forEach\<close>: each is the list of its entries in insertion order. \<open>scores\<close> is a
  \<open>Map\<close> too; \<open>scoresSet\<close> is \<open>Map.prototype.set\<close>, which overwrites a key where it stands
  and appends a new key at the end.
\<close>

type_synonym entries = "(string \<times> string list) list"

definition routingPatterns :: entries where
  "routingPatterns =
     [(''hr'', [''vacation'', ''pto'', ''time off'', ''benefits'', ''insurance'', ''401k'',
                ''payroll'', ''salary'', ''leave'', ''holiday'', ''sick day'']),
      (''policy'', [''policy'', ''procedure'', ''guideline'', ''rule'', ''compliance'',
                ''security'', ''expense'', ''reimbursement'', ''training'']),
      (''finance'', [''budget'', ''cost'', ''expense'', ''financial'', ''invoice'',
                ''payment'', ''accounting'', ''revenue'', ''forecast'']),
      (''knowledge'', [''how to'', ''what is'', ''where can i'', ''documentation'',
                ''manual'', ''guide'', ''help'', ''information''])]"

definition agentCapabilities :: entries where
  "agentCapabilities =
     [(''workday'', [''hr'', ''vacation'', ''payroll'', ''benefits'']),
      (''policy'', [''policy'', ''compliance'', ''procedures'']),
      (''healthcare'', [''benefits'', ''insurance'', ''wellness'']),
      (''finance'', [''budget'', ''expenses'', ''financial''])]"

type_synonym scores = "(string \<times> nat) list"

definition scoresGet :: "scores \<Rightarrow> string \<Rightarrow> nat" where
  \<comment> \<open>\<open>scores.get(agentId) || 0\<close>\<close>
  "scoresGet sc agentId = (case map_of sc agentId of None \<Rightarrow> 0 | Some v \<Rightarrow> v)"

fun scoresSet :: "string \<Rightarrow> nat \<Rightarrow> scores \<Rightarrow> scores" where
  "scoresSet k v [] = [(k, v)]"
| "scoresSet k v (p # ps) = (if fst p = k then (k, v) # ps else p # scoresSet k v ps)"

definition matchCount :: "string \<Rightarrow> string list \<Rightarrow> nat" where
  "matchCount lowerMessage keywords =
     length (filter (\<lambda>keyword. includes_str lowerMessage keyword) keywords)"

definition scoreAgent ::
  "string \<Rightarrow> nat \<Rightarrow> string list \<Rightarrow> string \<times> string list \<Rightarrow> scores \<Rightarrow> scores" where
  "scoreAgent category mc excludeAgents entry sc =
     (case entry of (agentId, capabilities) \<Rightarrow>
        if category \<in> set capabilities \<and> agentId \<notin> set excludeAgents
        then scoresSet agentId (scoresGet sc agentId + mc) sc
        else sc)"

definition scoreCategory ::
  "entries \<Rightarrow> string \<Rightarrow> string list \<Rightarrow> string \<times> string list \<Rightarrow> scores \<Rightarrow> scores" where
  "scoreCategory caps lowerMessage excludeAgents entry sc =
     (case entry of (category, keywords) \<Rightarrow>
        let mc = matchCount lowerMessage keywords in
        if mc > 0 then fold (scoreAgent category mc excludeAgents) caps sc else sc)"

definition scoreAll :: "entries \<Rightarrow> entries \<Rightarrow> string \<Rightarrow> string list \<Rightarrow> scores" where
  "scoreAll pats caps lowerMessage excludeAgents =
     fold (scoreCategory caps lowerMessage excludeAgents) pats []"

definition sortByScore :: "scores \<Rightarrow> scores" where
  \<comment> \<open>\<open>.sort((a, b) => b[1] - a[1])\<close>: a stable sort, descending in the score\<close>
  "sortByScore sc = sort_key (\<lambda>e. - int (snd e)) sc"

definition recommendAgentsWith ::
  "entries \<Rightarrow> entries \<Rightarrow> string \<Rightarrow> string list \<Rightarrow> string list" where
  "recommendAgentsWith pats caps message excludeAgents =
     (let lowerMessage = toLowerCase message;
          sc = scoreAll pats caps lowerMessage excludeAgents;
          sortedAgents = take 3 (map fst (sortByScore sc))
      in if length sortedAgents = 0
         then filter (\<lambda>agentId. agentId \<notin> set excludeAgents) [''workday'', ''policy'']
         else sortedAgents)"

definition recommendAgents :: "string \<Rightarrow> string list \<Rightarrow> string list" where
  "recommendAgents message excludeAgents =
     recommendAgentsWith routingPatterns agentCapabilities message excludeAgents"

definition findAlternativeAgents :: "string \<Rightarrow> string list \<Rightarrow> string list" where
  "findAlternativeAgents message excludeAgents = recommendAgents message excludeAgents"

section \<open>AgentOrchestrator: data\<close>

text \<open>
  JavaScript numbers are modelled as \<^typ>\<open>real\<close> (confidences, latencies, rates), as
  \<^typ>\<open>nat\<close> (the counters, which only ever grow by \<open>++\<close>) and as \<^typ>\<open>int\<close>
  (\<open>Date.now()\<close> in milliseconds). A property that an object may lack is an \<open>option\<close>;
  a property that is present has a value of its type (a message is a string, an agent
  list an array of strings). A \<open>Map\<close> that is only looked up, written and deleted from is
  a partial function.
\<close>

record source =
  name :: string
  description :: string

record agent =
  agent_id :: string
  agent_name :: string
  agent_type :: string
  agent_status :: string

text \<open>
  What a simulated agent answers (\<open>content\<close>, \<open>sources\<close>, \<open>confidence\<close>), what
  \<open>executeSingleQuery\<close> returns (with \<open>responseTime\<close>), an element of
  \<open>successfulResults\<close> (with \<open>agentId\<close>) and what \<open>synthesizeResponses\<close> returns
  (with \<open>agents\<close> and \<open>synthesized\<close>).
\<close>

record agentResponse =
  content :: string
  sources :: "source list"
  confidence :: real

record singleResult = agentResponse +
  responseTime :: real

record agentResult = singleResult +
  agentId :: string

record synthesis = agentResponse +
  responseAgents :: "string list"
  synthesized :: bool

text \<open>
  The three shapes of object that reach \<open>deliverResponse\<close>, the cache and \<open>logQuery\<close>:
  the result of a single agent passed on verbatim, a synthesis, and the error response
  that \<open>deliverErrorResponse\<close> builds (\<open>sources: []\<close>, \<open>agents: []\<close>, \<open>error: true\<close>).
\<close>

datatype response = Single singleResult | Synthesized synthesis | ErrorResponse string

fun responseError :: "response \<Rightarrow> bool" where
  "responseError (Single r) = False"
| "responseError (Synthesized r) = False"
| "responseError (ErrorResponse c) = True"

fun responseConfidence :: "response \<Rightarrow> real option" where
  "responseConfidence (Single r) = Some (confidence r)"
| "responseConfidence (Synthesized r) = Some (confidence r)"
| "responseConfidence (ErrorResponse c) = None"

fun responseAgentList :: "response \<Rightarrow> string list option" where
  "responseAgentList (Single r) = None"
| "responseAgentList (Synthesized r) = Some (responseAgents r)"
| "responseAgentList (ErrorResponse c) = Some []"

fun responseSynthesized :: "response \<Rightarrow> bool option" where
  "responseSynthesized (Single r) = None"
| "responseSynthesized (Synthesized r) = Some (synthesized r)"
| "responseSynthesized (ErrorResponse c) = None"

datatype error =
    InvalidQueryFormat
  | NoAvailableAgents
  | AllAgentsFailed
  | AgentNotFound string
  | AgentNotAvailable string
  | TypeError

fun errorMessage :: "error \<Rightarrow> string" where
  "errorMessage InvalidQueryFormat = ''Invalid query format''"
| "errorMessage NoAvailableAgents = ''No available agents for this query''"
| "errorMessage AllAgentsFailed = ''All agents failed to respond''"
| "errorMessage (AgentNotFound a) = ''Agent '' @ a @ '' not found''"
| "errorMessage (AgentNotAvailable a) = ''Agent '' @ a @ '' is not available''"
| "errorMessage TypeError = ''Cannot read properties of undefined''"

record query =
  message :: "string option"
  widgetId :: "string option"
  queryAgents :: "string list option"
  queryContext :: "string option"

record activeQuery =
  activeData :: query
  activeStartTime :: real
  activeStatus :: string

record routingPlan =
  strategy :: string
  planAgents :: "string list"
  parallel :: bool
  timeout :: nat

record metrics =
  totalQueries :: nat
  successfulQueries :: nat
  averageResponseTime :: real
  errorRate :: real
  lastResponseTime :: real
  uptime :: real
  reliability :: real

record cacheEntry =
  entryResponse :: response
  timestamp :: int
  entryQuery :: query

record logEntry =
  log_queryId :: string
  log_timestamp :: string
  log_message :: "string option"
  log_agents :: "string list"
  log_responseAgents :: "string list"
  log_duration :: real
  log_success :: bool
  log_confidence :: real
  log_synthesized :: bool
  log_cached :: bool

record config =
  maxConcurrentQueries :: nat
  defaultTimeout :: nat
  retryAttempts :: nat
  enableSmartRouting :: bool
  enableCaching :: bool

text \<open>
  An \<open>agent:response-ready\<close> event dispatched on the document: the widget id, the
  response and the time stamp.
\<close>

datatype delivery = ResponseReady "string option" response string

text \<open>
  The orchestrator's fields, and two logs of what it does to the outside: \<open>delivered\<close>,
  the events it dispatched, and \<open>agentCalls\<close>, the agents whose API \<open>callAgent\<close> was
  invoked on, both oldest first.
\<close>

record orchestrator =
  agents :: "string \<rightharpoonup> agent"
  activeQueries :: "string \<rightharpoonup> activeQuery"
  queryHistory :: "logEntry list"
  performanceMetrics :: "string \<rightharpoonup> metrics"
  config :: config
  responseCache :: "string \<rightharpoonup> cacheEntry"
  delivered :: "delivery list"
  agentCalls :: "string list"

text \<open>
  The readings one \<open>processQuery\<close> takes from outside: the random query id, the values
  of \<open>performance.now()\<close> as differences, and those of \<open>Date.now()\<close> and
  \<open>new Date().toISOString()\<close>.
\<close>

record env =
  queryId :: string
  startTime :: real
  lookupNow :: int
  storeNow :: int
  cleanNow :: int
  agentTime :: "string \<Rightarrow> real"
  totalTime :: real
  duration :: real
  isoNow :: string

definition cacheExpiry :: int where
  "cacheExpiry = 300000"

definition defaultConfig :: config where
  "defaultConfig = \<lparr> maxConcurrentQueries = 10, defaultTimeout = 30000, retryAttempts = 3,
                      enableSmartRouting = True, enableCaching = True \<rparr>"

definition newOrchestrator :: orchestrator where
  "newOrchestrator = \<lparr> agents = Map.empty, activeQueries = Map.empty, queryHistory = [],
                        performanceMetrics = Map.empty, config = defaultConfig,
                        responseCache = Map.empty, delivered = [], agentCalls = [] \<rparr>"

definition initialMetrics :: metrics where
  "initialMetrics = \<lparr> totalQueries = 0, successfulQueries = 0, averageResponseTime = 0,
                       errorRate = 0, lastResponseTime = 0, uptime = 100, reliability = 100 \<rparr>"

definition initializePerformanceTracking :: "orchestrator \<Rightarrow> orchestrator" where
  "initializePerformanceTracking s =
     s\<lparr>performanceMetrics :=
          (\<lambda>k. case agents s k of
                  None \<Rightarrow> performanceMetrics s k
                | Some a \<Rightarrow> Some initialMetrics)\<rparr>"

definition initialize :: "(string \<rightharpoonup> agent) \<Rightarrow> orchestrator \<Rightarrow> orchestrator" where
  "initialize agentMap s = initializePerformanceTracking (s\<lparr>agents := agentMap\<rparr>)"

section \<open>AgentOrchestrator: validation and cache\<close>

definition validateQuery :: "query \<Rightarrow> bool" where
  "validateQuery q =
     ((message q \<noteq> None \<and> widgetId q \<noteq> None) \<and>
      (case message q of None \<Rightarrow> False | Some m \<Rightarrow> length (trim m) > 0))"

text \<open>
  \<open>generateCacheKey\<close> sorts \<open>queryData.agents\<close> in place: the query comes back with the
  key. Reading \<open>queryData.message\<close> where the property is missing is a \<open>TypeError\<close>.
\<close>

definition generateCacheKey :: "query \<Rightarrow> error + (string \<times> query)" where
  "generateCacheKey q =
     (case message q of
        None \<Rightarrow> Inl TypeError
      | Some m \<Rightarrow>
          let normalizedMessage = trim (toLowerCase m);
              sortedAgents = join '','' (sort (case queryAgents q of None \<Rightarrow> [] | Some l \<Rightarrow> l))
          in Inr (normalizedMessage @ ''|'' @ sortedAgents,
                  q\<lparr>queryAgents := map_option sort (queryAgents q)\<rparr>))"

definition getCachedResponse ::
  "int \<Rightarrow> query \<Rightarrow> orchestrator \<Rightarrow> error + (response option \<times> query \<times> orchestrator)" where
  "getCachedResponse now q s =
     (case generateCacheKey q of
        Inl err \<Rightarrow> Inl err
      | Inr (cacheKey, q') \<Rightarrow>
          (case responseCache s cacheKey of
             None \<Rightarrow> Inr (None, q', s)
           | Some cached \<Rightarrow>
               if now - timestamp cached > cacheExpiry
               then Inr (None, q', s\<lparr>responseCache := (responseCache s)(cacheKey := None)\<rparr>)
               else Inr (Some (entryResponse cached), q', s)))"

definition shouldCacheResponse :: "response \<Rightarrow> bool" where
  "shouldCacheResponse r =
     (\<not> responseError r \<and> (case responseConfidence r of None \<Rightarrow> False | Some c \<Rightarrow> c > 0.7))"

definition cleanExpiredCache :: "int \<Rightarrow> orchestrator \<Rightarrow> orchestrator" where
  "cleanExpiredCache now s =
     s\<lparr>responseCache :=
          (\<lambda>k. case responseCache s k of
                  None \<Rightarrow> None
                | Some cached \<Rightarrow> if now - timestamp cached > cacheExpiry then None else Some cached)\<rparr>"

definition cacheResponse ::
  "int \<Rightarrow> int \<Rightarrow> query \<Rightarrow> response \<Rightarrow> orchestrator \<Rightarrow> error + (query \<times> orchestrator)" where
  "cacheResponse stamp now q r s =
     (case generateCacheKey q of
        Inl err \<Rightarrow> Inl err
      | Inr (cacheKey, q') \<Rightarrow>
          Inr (q', cleanExpiredCache now
                 (s\<lparr>responseCache := (responseCache s)
                        (cacheKey \<mapsto> \<lparr> entryResponse = r, timestamp = stamp, entryQuery = q' \<rparr>)\<rparr>)))"

section \<open>AgentOrchestrator: metrics\<close>

definition updateAgentMetrics :: "string \<Rightarrow> real \<Rightarrow> bool \<Rightarrow> orchestrator \<Rightarrow> orchestrator" where
  "updateAgentMetrics aid rt success s =
     (case performanceMetrics s aid of
        None \<Rightarrow> s
      | Some m \<Rightarrow>
          let m1 = m\<lparr>totalQueries := totalQueries m + 1, lastResponseTime := rt\<rparr>;
              m2 = (if success
                    then m1\<lparr>successfulQueries := successfulQueries m1 + 1,
                            averageResponseTime :=
                              (if averageResponseTime m1 = 0 then rt
                               else (averageResponseTime m1 * 0.8) + (rt * 0.2))\<rparr>
                    else m1);
              m3 = m2\<lparr>errorRate :=
                         ((real (totalQueries m2) - real (successfulQueries m2))
                            / real (totalQueries m2)) * 100\<rparr>;
              responseTimeFactor = max 0 (100 - (rt / 50));
              m4 = m3\<lparr>reliability := max 0 ((100 - errorRate m3) * (responseTimeFactor / 100))\<rparr>
          in s\<lparr>performanceMetrics := (performanceMetrics s)(aid \<mapsto> m4)\<rparr>)"

definition updatePerformanceMetrics ::
  "string list \<Rightarrow> real \<Rightarrow> bool \<Rightarrow> orchestrator \<Rightarrow> orchestrator" where
  "updatePerformanceMetrics agentIds elapsed success s =
     fold (\<lambda>aid. updateAgentMetrics aid elapsed success) agentIds s"

section \<open>AgentOrchestrator: the simulated agents\<close>

definition simulateHRResponse :: "string option \<Rightarrow> agent \<Rightarrow> error + agentResponse" where
  "simulateHRResponse msg a =
     (case msg of
        None \<Rightarrow> Inl TypeError
      | Some m \<Rightarrow>
          let lowerMessage = toLowerCase m in
          if includes_str lowerMessage ''vacation'' \<or> includes_str lowerMessage ''pto''
             \<or> includes_str lowerMessage ''time off''
          then Inr \<lparr> content = ''You have 12 vacation days remaining this year. Your next scheduled PTO is March 15-17 (3 days). Would you like me to help you submit a new vacation request?'',
                     sources = [\<lparr> name = ''Workday'', description = ''Employee vacation balance from Workday system'' \<rparr>,
                                \<lparr> name = ''PTO Policy'', description = ''Company paid time off policy document'' \<rparr>],
                     confidence = 0.95 \<rparr>
          else if includes_str lowerMessage ''benefit'' \<or> includes_str lowerMessage ''insurance''
             \<or> includes_str lowerMessage ''401k''
          then Inr \<lparr> content = ''Your current benefits include Health Insurance (PPO plan), 401(k) with 6% company match, and $50,000 life insurance. Open enrollment is November 1-15. Need help with any specific benefit questions?'',
                     sources = [\<lparr> name = ''Benefits Portal'', description = ''Employee benefits information system'' \<rparr>,
                                \<lparr> name = ''HR Guidelines'', description = ''Benefits enrollment guidelines'' \<rparr>],
                     confidence = 0.92 \<rparr>
          else if includes_str lowerMessage ''remote'' \<or> includes_str lowerMessage ''policy''
             \<or> includes_str lowerMessage ''work from home''
          then Inr \<lparr> content = ''Our remote work policy allows up to 3 days per week remote with manager approval. Core hours are 10 AM - 3 PM ET. Equipment allowance includes laptop and $500 for home office setup.'',
                     sources = [\<lparr> name = ''Employee Handbook'', description = ''Remote work policy section 4.2'' \<rparr>,
                                \<lparr> name = ''IT Policy'', description = ''Equipment and security guidelines'' \<rparr>],
                     confidence = 0.88 \<rparr>
          else Inr \<lparr> content = ''I can help with HR-related questions about vacation time, benefits, policies, and procedures. What specific information do you need?'',
                     sources = [\<lparr> name = agent_name a, description = ''HR assistance system'' \<rparr>],
                     confidence = 0.7 \<rparr>)"

definition simulateKnowledgeResponse :: "string option \<Rightarrow> agent \<Rightarrow> error + agentResponse" where
  "simulateKnowledgeResponse msg a =
     (case msg of
        None \<Rightarrow> Inl TypeError
      | Some m \<Rightarrow>
          let lowerMessage = toLowerCase m in
          if includes_str lowerMessage ''expense'' \<or> includes_str lowerMessage ''reimburse''
             \<or> includes_str lowerMessage ''receipt''
          then Inr \<lparr> content = ''Expense reimbursement policy: Meals up to $75/day with receipts required for amounts over $25. Alcohol not reimbursable. Submit through Concur within 30 days.'',
                     sources = [\<lparr> name = ''Finance Policy 3.1'', description = ''Employee expense reimbursement guidelines'' \<rparr>,
                                \<lparr> name = ''Concur Guide'', description = ''Expense submission process documentation'' \<rparr>],
                     confidence = 0.94 \<rparr>
          else if includes_str lowerMessage ''security'' \<or> includes_str lowerMessage ''password''
             \<or> includes_str lowerMessage ''vpn''
          then Inr \<lparr> content = ''Security policy requires: Two-factor authentication for all systems, password rotation every 90 days, VPN for remote access, and immediate reporting of suspected security incidents.'',
                     sources = [\<lparr> name = ''IT Security Policy'', description = ''Corporate information security standards'' \<rparr>,
                                \<lparr> name = ''Compliance Manual'', description = ''Security compliance requirements'' \<rparr>],
                     confidence = 0.91 \<rparr>
          else if includes_str lowerMessage ''compliance'' \<or> includes_str lowerMessage ''training''
             \<or> includes_str lowerMessage ''ethics''
          then Inr \<lparr> content = ''All employees must complete annual compliance training by December 31st. This includes ethics, anti-harassment, and data privacy modules. Certificates are tracked in the learning management system.'',
                     sources = [\<lparr> name = ''Compliance Framework'', description = ''Annual training requirements'' \<rparr>,
                                \<lparr> name = ''Training Records'', description = ''Employee completion tracking system'' \<rparr>],
                     confidence = 0.89 \<rparr>
          else Inr \<lparr> content = ''I can help you find information about company policies, procedures, and compliance requirements. What specific topic are you looking for?'',
                     sources = [\<lparr> name = agent_name a, description = ''Knowledge base system'' \<rparr>],
                     confidence = 0.7 \<rparr>)"

definition simulateFinanceResponse :: "string option \<Rightarrow> agent \<Rightarrow> error + agentResponse" where
  "simulateFinanceResponse msg a =
     Inr \<lparr> content = ''Your department budget shows 73% utilization ($127k of $175k allocated). Q2 forecast is on track. Major categories: Software licenses (45%), Contractors (28%), Travel (15%). Need specific budget details?'',
           sources = [\<lparr> name = ''SAP Financial System'', description = ''Department budget and expense tracking'' \<rparr>,
                      \<lparr> name = ''Q2 Forecast'', description = ''Budget projection and variance analysis'' \<rparr>],
           confidence = 0.87 \<rparr>"

definition simulateGenericResponse :: "string option \<Rightarrow> agent \<Rightarrow> error + agentResponse" where
  "simulateGenericResponse msg a =
     Inr \<lparr> content = ''I've processed your query: '' @ [CHR 0x22]
                       @ (case msg of None \<Rightarrow> ''undefined'' | Some m \<Rightarrow> m) @ [CHR 0x22]
                       @ ''. I can provide general assistance, but you might get better results from a specialized agent for your specific domain.'',
           sources = [\<lparr> name = agent_name a, description = ''General purpose AI assistant'' \<rparr>],
           confidence = 0.6 \<rparr>"

definition callAgent :: "agent \<Rightarrow> string option \<Rightarrow> error + agentResponse" where
  "callAgent a msg =
     (if agent_type a = ''hr'' then simulateHRResponse msg a
      else if agent_type a = ''knowledge'' then simulateKnowledgeResponse msg a
      else if agent_type a = ''finance'' then simulateFinanceResponse msg a
      else simulateGenericResponse msg a)"

section \<open>AgentOrchestrator: routing, dispatch and synthesis\<close>

definition createRoutingPlan :: "query \<Rightarrow> orchestrator \<Rightarrow> error + routingPlan" where
  "createRoutingPlan q s =
     (if \<not> enableSmartRouting (config s) \<or> queryAgents q = None \<or> queryAgents q = Some []
      then (case message q of
              None \<Rightarrow> Inl TypeError
            | Some m \<Rightarrow>
                Inr \<lparr> strategy = ''smart'', planAgents = recommendAgents m [], parallel = True,
                      timeout = defaultTimeout (config s) \<rparr>)
      else
        let availableAgents =
              filter (\<lambda>aid. case agents s aid of
                              None \<Rightarrow> False
                            | Some a \<Rightarrow> agent_status a = ''online'')
                (case queryAgents q of None \<Rightarrow> [] | Some l \<Rightarrow> l)
        in if length availableAgents = 0 then Inl NoAvailableAgents
           else Inr \<lparr> strategy = ''specified'', planAgents = availableAgents,
                      parallel = (length availableAgents > 1),
                      timeout = defaultTimeout (config s) \<rparr>)"

text \<open>
  \<open>executeSingleQuery\<close> receives the active query (\<open>undefined\<close> when the map has none).
  The entry in \<open>agentCalls\<close> is written where the source calls \<open>callAgent\<close>.
\<close>

definition executeSingleQuery ::
  "env \<Rightarrow> activeQuery option \<Rightarrow> string \<Rightarrow> orchestrator
     \<Rightarrow> (error + singleResult) \<times> orchestrator" where
  "executeSingleQuery e queryData aid s =
     (case agents s aid of
        None \<Rightarrow> (Inl (AgentNotFound aid), s)
      | Some a \<Rightarrow>
          if agent_status a \<noteq> ''online'' then (Inl (AgentNotAvailable aid), s)
          else
            (case queryData of
               None \<Rightarrow> (Inl TypeError, updateAgentMetrics aid (agentTime e aid) False s)
             | Some qd \<Rightarrow>
                 let s1 = s\<lparr>agentCalls := agentCalls s @ [aid]\<rparr> in
                 (case callAgent a (message (activeData qd)) of
                    Inl err \<Rightarrow> (Inl err, updateAgentMetrics aid (agentTime e aid) False s1)
                  | Inr r \<Rightarrow>
                      (Inr \<lparr> content = content r, sources = sources r,
                             confidence = (if confidence r = 0 then 0.8 else confidence r),
                             responseTime = agentTime e aid \<rparr>,
                       updateAgentMetrics aid (agentTime e aid) True s1))))"

fun findIndex :: "('a \<Rightarrow> bool) \<Rightarrow> 'a list \<Rightarrow> int" where
  "findIndex P [] = - 1"
| "findIndex P (x # xs) =
     (if P x then 0 else (let i = findIndex P xs in if i < 0 then - 1 else i + 1))"

definition uniqueSources :: "source list \<Rightarrow> source list" where
  "uniqueSources arr =
     map snd (filter (\<lambda>(index, src). int index = findIndex (\<lambda>s. name s = name src) arr)
                (enumerate 0 arr))"

text \<open>
  For an empty list of results JavaScript computes the confidence \<open>0 / 0 = NaN\<close>, which
  \<^typ>\<open>real\<close> does not have; the only caller passes at least one result.
\<close>

definition synthesizeResponses :: "agentResult list \<Rightarrow> orchestrator \<Rightarrow> synthesis" where
  "synthesizeResponses results s =
     (case results of
        [r] \<Rightarrow> \<lparr> content = content r, sources = sources r, confidence = confidence r,
                 responseAgents = [agentId r], synthesized = False \<rparr>
      | _ \<Rightarrow>
          let combined = join [CHR 0x0A, CHR 0x0A]
                       (map (\<lambda>r. let agentName =
                                       (case agents s (agentId r) of
                                          None \<Rightarrow> agentId r
                                        | Some a \<Rightarrow> if agent_name a = [] then agentId r
                                                    else agent_name a)
                                  in ''**'' @ agentName @ '':** '' @ content r) results);
              allSources = foldl (\<lambda>acc r. acc @ sources r) [] results;
              avgConfidence = foldl (\<lambda>total r. total + confidence r) 0 results
                                / real (length results)
          in \<lparr> content = combined, sources = uniqueSources allSources, confidence = avgConfidence,
               responseAgents = map agentId results, synthesized = True \<rparr>)"

text \<open>
  Every promise of \<open>executeParallelQueries\<close> carries a \<open>catch\<close>, so all of them fulfil
  and \<open>Promise.allSettled\<close> yields one outcome per agent of the plan, in the plan's order:
  \<open>Inl\<close> for the object \<open>{agentId, error}\<close>, \<open>Inr\<close> for a result. The calls are run in
  the plan's order.
\<close>

fun allSettled ::
  "env \<Rightarrow> activeQuery option \<Rightarrow> string list \<Rightarrow> orchestrator
     \<Rightarrow> (error + singleResult) list \<times> orchestrator" where
  "allSettled e queryData [] s = ([], s)"
| "allSettled e queryData (aid # rest) s =
     (case executeSingleQuery e queryData aid s of
        (r, s1) \<Rightarrow> (case allSettled e queryData rest s1 of (rs, s2) \<Rightarrow> (r # rs, s2)))"

definition successfulResults :: "string list \<Rightarrow> (error + singleResult) list \<Rightarrow> agentResult list" where
  "successfulResults ids results =
     concat (map (\<lambda>(aid, r). case r of
                                Inl err \<Rightarrow> []
                              | Inr v \<Rightarrow> [\<lparr> content = content v, sources = sources v,
                                            confidence = confidence v,
                                            responseTime = responseTime v, agentId = aid \<rparr>])
               (zip ids results))"

definition executeParallelQueries ::
  "env \<Rightarrow> activeQuery option \<Rightarrow> routingPlan \<Rightarrow> orchestrator
     \<Rightarrow> (error + synthesis) \<times> orchestrator" where
  "executeParallelQueries e queryData plan s =
     (case allSettled e queryData (planAgents plan) s of
        (results, s1) \<Rightarrow>
          let good = successfulResults (planAgents plan) results in
          if length good = 0 then (Inl AllAgentsFailed, s1)
          else (Inr (synthesizeResponses good s1), s1))"

definition executeQueryPlan ::
  "env \<Rightarrow> string \<Rightarrow> routingPlan \<Rightarrow> orchestrator \<Rightarrow> (error + response) \<times> orchestrator" where
  "executeQueryPlan e qid plan s =
     (let active = activeQueries s qid in
      if parallel plan \<and> length (planAgents plan) > 1
      then (case executeParallelQueries e active plan s of
              (Inl err, s1) \<Rightarrow> (Inl err, s1)
            | (Inr r, s1) \<Rightarrow> (Inr (Synthesized r), s1))
      else (case planAgents plan of
              [] \<Rightarrow> (Inl (AgentNotFound ''undefined''), s)
            | aid # rest \<Rightarrow>
                (case executeSingleQuery e active aid s of
                   (Inl err, s1) \<Rightarrow> (Inl err, s1)
                 | (Inr r, s1) \<Rightarrow> (Inr (Single r), s1))))"

section \<open>AgentOrchestrator: delivery, log and processQuery\<close>

definition deliverResponse :: "string option \<Rightarrow> response \<Rightarrow> string \<Rightarrow> orchestrator \<Rightarrow> orchestrator" where
  "deliverResponse wid r stamp s = s\<lparr>delivered := delivered s @ [ResponseReady wid r stamp]\<rparr>"

definition deliverErrorResponse :: "string option \<Rightarrow> error \<Rightarrow> string \<Rightarrow> orchestrator \<Rightarrow> orchestrator" where
  "deliverErrorResponse wid err stamp s =
     s\<lparr>delivered := delivered s @
          [ResponseReady wid
             (ErrorResponse (''I encountered an error processing your request: '' @ errorMessage err
                @ ''. Please try again or contact support if the issue persists.'')) stamp]\<rparr>"

definition logQuery ::
  "string \<Rightarrow> query \<Rightarrow> response \<Rightarrow> real \<Rightarrow> string \<Rightarrow> orchestrator \<Rightarrow> orchestrator" where
  "logQuery qid q r dur stamp s =
     (let entry = \<lparr> log_queryId = qid, log_timestamp = stamp, log_message = message q,
                    log_agents = (case queryAgents q of None \<Rightarrow> [] | Some l \<Rightarrow> l),
                    log_responseAgents = (case responseAgentList r of None \<Rightarrow> [] | Some l \<Rightarrow> l),
                    log_duration = dur, log_success = (\<not> responseError r),
                    log_confidence = (case responseConfidence r of None \<Rightarrow> 0 | Some c \<Rightarrow> c),
                    log_synthesized = (case responseSynthesized r of None \<Rightarrow> False | Some b \<Rightarrow> b),
                    log_cached = False \<rparr>;
          pushed = queryHistory s @ [entry]
      in s\<lparr>queryHistory := (if length pushed > 1000 then tl pushed else pushed)\<rparr>)"

text \<open>
  The \<open>try\<close> block of \<open>processQuery\<close>: \<open>Inl\<close> is the exception it throws, and the query
  comes back as \<open>generateCacheKey\<close> left it.
\<close>

definition processQueryBody ::
  "env \<Rightarrow> query \<Rightarrow> orchestrator \<Rightarrow> (error + unit) \<times> query \<times> orchestrator" where
  "processQueryBody e q s =
     (if \<not> validateQuery q then (Inl InvalidQueryFormat, q, s)
      else
        (case (if enableCaching (config s) then getCachedResponse (lookupNow e) q s
               else Inr (None, q, s)) of
           Inl err \<Rightarrow> (Inl err, q, s)
         | Inr (Some cached, q1, s1) \<Rightarrow>
             (Inr (), q1, deliverResponse (widgetId q1) cached (isoNow e) s1)
         | Inr (None, q1, s1) \<Rightarrow>
             let s2 = s1\<lparr>activeQueries := (activeQueries s1)
                          (queryId e \<mapsto> \<lparr> activeData = q1, activeStartTime = startTime e,
                                          activeStatus = ''processing'' \<rparr>)\<rparr>
             in (case createRoutingPlan q1 s2 of
                   Inl err \<Rightarrow> (Inl err, q1, s2)
                 | Inr plan \<Rightarrow>
                     (case executeQueryPlan e (queryId e) plan s2 of
                        (Inl err, s3) \<Rightarrow> (Inl err, q1, s3)
                      | (Inr r, s3) \<Rightarrow>
                          (case (if enableCaching (config s3) \<and> shouldCacheResponse r
                                 then cacheResponse (storeNow e) (cleanNow e) q1 r s3
                                 else Inr (q1, s3)) of
                             Inl err \<Rightarrow> (Inl err, q1, s3)
                           | Inr (q2, s4) \<Rightarrow>
                               let s5 = deliverResponse (widgetId q2) r (isoNow e) s4;
                                   s6 = updatePerformanceMetrics (planAgents plan) (totalTime e) True s5;
                                   s7 = logQuery (queryId e) q2 r (duration e) (isoNow e) s6
                               in (Inr (), q2, s7))))))"

definition processQuery :: "env \<Rightarrow> query \<Rightarrow> orchestrator \<Rightarrow> orchestrator" where
  "processQuery e q s =
     (case processQueryBody e q s of
        (Inr u, q1, s1) \<Rightarrow> s1\<lparr>activeQueries := (activeQueries s1)(queryId e := None)\<rparr>
      | (Inl err, q1, s1) \<Rightarrow>
          let s2 = updatePerformanceMetrics (case queryAgents q1 of None \<Rightarrow> [] | Some l \<Rightarrow> l)
                     (totalTime e) False s1;
              s3 = deliverErrorResponse (widgetId q1) err (isoNow e) s2
          in s3\<lparr>activeQueries := (activeQueries s3)(queryId e := None)\<rparr>)"

definition processQueries :: "(env \<times> query) list \<Rightarrow> orchestrator \<Rightarrow> orchestrator" where
  "processQueries qs s = fold (\<lambda>(e, q). processQuery e q) qs s"

section \<open>Example inputs\<close>

text \<open>
  The two agents of \<open>loadFallbackAgents\<close>, both offline as that function creates them,
  the same two with \<open>workday\<close> online, and the readings and the query of one call.
\<close>

definition fallbackAgents :: "string \<rightharpoonup> agent" where
  "fallbackAgents =
     [''workday'' \<mapsto> \<lparr> agent_id = ''workday'', agent_name = ''Workday Assistant'',
                       agent_type = ''hr'', agent_status = ''offline'' \<rparr>,
      ''policy'' \<mapsto> \<lparr> agent_id = ''policy'', agent_name = ''Policy Bot'',
                      agent_type = ''knowledge'', agent_status = ''offline'' \<rparr>]"

definition exampleAgents :: "string \<rightharpoonup> agent" where
  "exampleAgents =
     [''workday'' \<mapsto> \<lparr> agent_id = ''workday'', agent_name = ''Workday Assistant'',
                       agent_type = ''hr'', agent_status = ''online'' \<rparr>,
      ''policy'' \<mapsto> \<lparr> agent_id = ''policy'', agent_name = ''Policy Bot'',
                      agent_type = ''knowledge'', agent_status = ''offline'' \<rparr>]"

definition exampleEnv :: env where
  "exampleEnv = \<lparr> queryId = ''query_1'', startTime = 0, lookupNow = 1000, storeNow = 2000,
                  cleanNow = 2000, agentTime = (\<lambda>a. 700), totalTime = 750, duration = 760,
                  isoNow = ''2024-01-01T00:00:00.000Z'' \<rparr>"

definition exampleQuery :: query where
  "exampleQuery = \<lparr> message = Some ''How many vacation days do I have?'', widgetId = Some ''w1'',
                    queryAgents = None, queryContext = None \<rparr>"

definition exampleActive :: activeQuery where
  "exampleActive = \<lparr> activeData = exampleQuery, activeStartTime = 0,
                     activeStatus = ''processing'' \<rparr>"

definition exampleEntry :: logEntry where
  "exampleEntry = \<lparr> log_queryId = ''query_0'', log_timestamp = ''2024-01-01T00:00:00.000Z'',
                    log_message = Some ''hello'', log_agents = [], log_responseAgents = [],
                    log_duration = 1, log_success = True, log_confidence = 0.8,
                    log_synthesized = False, log_cached = False \<rparr>"

text \<open>
  A cache that holds one entry, written at time 1000 for the message \<open>vacation\<close> and the
  agent \<open>workday\<close>, and a query that normalises to the same key.
\<close>

definition cachedState :: orchestrator where
  "cachedState =
     newOrchestrator\<lparr>responseCache :=
       [''vacation|workday'' \<mapsto>
          \<lparr> entryResponse = Single \<lparr> content = ''12 days'', sources = [], confidence = 0.95,
                                      responseTime = 700 \<rparr>,
            timestamp = 1000,
            entryQuery = \<lparr> message = Some ''vacation'', widgetId = Some ''w1'',
                           queryAgents = Some [''workday''], queryContext = None \<rparr> \<rparr>]\<rparr>"

definition cachedQuery :: query where
  "cachedQuery = \<lparr> message = Some '' Vacation '', widgetId = Some ''w2'',
                   queryAgents = Some [''workday''], queryContext = None \<rparr>"

text \<open>Two plans: one with an online agent among three, one with none.\<close>

definition mixedPlan :: routingPlan where
  "mixedPlan = \<lparr> strategy = ''specified'', planAgents = [''workday'', ''policy'', ''ghost''],
                 parallel = True, timeout = 30000 \<rparr>"

definition failingPlan :: routingPlan where
  "failingPlan = \<lparr> strategy = ''specified'', planAgents = [''policy'', ''ghost''],
                   parallel = True, timeout = 30000 \<rparr>"

text \<open>The two agents, both online.\<close>

definition onlineAgents :: "string \<rightharpoonup> agent" where
  "onlineAgents =
     [''workday'' \<mapsto> \<lparr> agent_id = ''workday'', agent_name = ''Workday Assistant'',
                       agent_type = ''hr'', agent_status = ''online'' \<rparr>,
      ''policy'' \<mapsto> \<lparr> agent_id = ''policy'', agent_name = ''Policy Bot'',
                      agent_type = ''knowledge'', agent_status = ''online'' \<rparr>]"

section \<open>Vocabulary of the properties\<close>

text \<open>
  \<open>serves caps a c\<close>: agent \<open>a\<close> has category \<open>c\<close> in its capability list.
  \<open>keywordHits\<close>: the keyword-hit score of an agent, the number of trigger keywords found
  in the message, summed over the categories the agent serves.
\<close>

definition serves :: "entries \<Rightarrow> string \<Rightarrow> string \<Rightarrow> bool" where
  "serves caps a category = list_ex (\<lambda>entry. fst entry = a \<and> category \<in> set (snd entry)) caps"

definition keywordHits :: "entries \<Rightarrow> entries \<Rightarrow> string \<Rightarrow> string \<Rightarrow> nat" where
  "keywordHits pats caps lowerMessage a =
     sum_list (map (\<lambda>entry. if serves caps a (fst entry)
                              then matchCount lowerMessage (snd entry) else 0) pats)"

text \<open>
  \<open>firstByName\<close>: a list of sources de-duplicated by name, the first occurrence of each
  name retained.
\<close>

fun firstByName :: "source list \<Rightarrow> source list" where
  "firstByName [] = []"
| "firstByName (x # xs) = x # filter (\<lambda>s. name s \<noteq> name x) (firstByName xs)"

text \<open>
  \<open>callable s a\<close>: agent \<open>a\<close> is in the agent map and its status is \<open>online\<close>.
  \<open>outcome e qd s a\<close>: what \<open>executeSingleQuery\<close> yields for agent \<open>a\<close>, \<open>Inl\<close> when it
  throws.
\<close>

definition callable :: "orchestrator \<Rightarrow> string \<Rightarrow> bool" where
  "callable s a = (case agents s a of None \<Rightarrow> False | Some ag \<Rightarrow> agent_status ag = ''online'')"

abbreviation outcome ::
  "env \<Rightarrow> activeQuery option \<Rightarrow> orchestrator \<Rightarrow> string \<Rightarrow> error + singleResult" where
  "outcome e qd s a \<equiv> fst (executeSingleQuery e qd a s)"

section \<open>Strings: substring test\<close>

lemma startsWith_iff: "startsWith s k \<longleftrightarrow> (\<exists>q. s = k @ q)"
  by (induction s k rule: startsWith.induct) auto

lemma includes_str_iff: "includes_str s k \<longleftrightarrow> (\<exists>p q. s = p @ k @ q)"
proof (induction s)
  case Nil
  then show ?case by simp
next
  case (Cons c cs)
  show ?case
  proof
    assume "includes_str (c # cs) k"
    then consider "startsWith (c # cs) k" | "includes_str cs k" by auto
    then show "\<exists>p q. c # cs = p @ k @ q"
    proof cases
      case 1
      then obtain q where "c # cs = k @ q" by (auto simp: startsWith_iff)
      then have "c # cs = [] @ k @ q" by simp
      then show ?thesis by blast
    next
      case 2
      then obtain p q where "cs = p @ k @ q" using Cons.IH by blast
      then have "c # cs = (c # p) @ k @ q" by simp
      then show ?thesis by blast
    qed
  next
    assume "\<exists>p q. c # cs = p @ k @ q"
    then obtain p q where pq: "c # cs = p @ k @ q" by blast
    show "includes_str (c # cs) k"
    proof (cases p)
      case Nil
      with pq have "startsWith (c # cs) k" by (auto simp: startsWith_iff)
      then show ?thesis by simp
    next
      case (Cons d p')
      with pq have "cs = p' @ k @ q" by simp
      then have "includes_str cs k" using Cons.IH by blast
      then show ?thesis by simp
    qed
  qed
qed

section \<open>The routing engine's scores\<close>

lemma map_of_scoresSet: "map_of (scoresSet k v sc) = (map_of sc)(k \<mapsto> v)"
  by (induction sc) auto

lemma keys_scoresSet: "fst ` set (scoresSet k v sc) = insert k (fst ` set sc)"
  by (induction sc) auto

lemma distinct_scoresSet: "distinct (map fst sc) \<Longrightarrow> distinct (map fst (scoresSet k v sc))"
  by (induction sc) (auto simp: keys_scoresSet)

lemma scoresGet_scoresSet: "scoresGet (scoresSet k v sc) a = (if a = k then v else scoresGet sc a)"
  by (simp add: scoresGet_def map_of_scoresSet)

lemma serves_Cons: "serves (e # caps) a c = ((fst e = a \<and> c \<in> set (snd e)) \<or> serves caps a c)"
  by (simp add: serves_def)

lemma serves_Nil: "serves [] a c = False"
  by (simp add: serves_def)

lemma serves_not_key: "a \<notin> fst ` set caps \<Longrightarrow> \<not> serves caps a c"
  by (auto simp: serves_def list_ex_iff)

lemma scoreAgent_get:
  "scoresGet (scoreAgent c mc ex e sc) a =
     scoresGet sc a + (if fst e = a \<and> c \<in> set (snd e) \<and> a \<notin> set ex then mc else 0)"
  by (cases e) (auto simp: scoreAgent_def scoresGet_scoresSet)

lemma scoreAgent_keys:
  "fst ` set (scoreAgent c mc ex e sc) =
     fst ` set sc \<union> (if c \<in> set (snd e) \<and> fst e \<notin> set ex then {fst e} else {})"
  by (cases e) (auto simp: scoreAgent_def keys_scoresSet)

lemma scoreAgent_distinct:
  "distinct (map fst sc) \<Longrightarrow> distinct (map fst (scoreAgent c mc ex e sc))"
  by (cases e) (auto simp: scoreAgent_def distinct_scoresSet)

lemma fold_scoreAgent_get:
  "distinct (map fst caps) \<Longrightarrow>
   scoresGet (fold (scoreAgent c mc ex) caps sc) a =
     scoresGet sc a + (if serves caps a c \<and> a \<notin> set ex then mc else 0)"
proof (induction caps arbitrary: sc)
  case Nil
  then show ?case by (simp add: serves_Nil)
next
  case (Cons e caps)
  then have d: "distinct (map fst caps)" and n: "fst e \<notin> fst ` set caps" by auto
  show ?case
    using Cons.IH [OF d, of "scoreAgent c mc ex e sc"] n serves_not_key [of a caps c]
    by (auto simp: scoreAgent_get serves_Cons)
qed

lemma fold_scoreAgent_keys:
  "fst ` set (fold (scoreAgent c mc ex) caps sc) =
     fst ` set sc \<union> {a. serves caps a c \<and> a \<notin> set ex}"
proof (induction caps arbitrary: sc)
  case Nil
  then show ?case by (simp add: serves_Nil)
next
  case (Cons e caps)
  show ?case
    by (simp add: Cons.IH scoreAgent_keys serves_Cons) blast
qed

lemma fold_scoreAgent_distinct:
  "distinct (map fst sc) \<Longrightarrow> distinct (map fst (fold (scoreAgent c mc ex) caps sc))"
  by (induction caps arbitrary: sc) (auto simp: scoreAgent_distinct)

lemma scoreCategory_get:
  "distinct (map fst caps) \<Longrightarrow>
   scoresGet (scoreCategory caps lm ex e sc) a =
     scoresGet sc a + (if serves caps a (fst e) \<and> a \<notin> set ex then matchCount lm (snd e) else 0)"
  by (cases e) (simp add: scoreCategory_def Let_def fold_scoreAgent_get)

lemma scoreCategory_keys:
  "fst ` set (scoreCategory caps lm ex e sc) =
     fst ` set sc \<union> {a. 0 < matchCount lm (snd e) \<and> serves caps a (fst e) \<and> a \<notin> set ex}"
  by (cases e) (simp add: scoreCategory_def Let_def fold_scoreAgent_keys)

lemma scoreCategory_distinct:
  "distinct (map fst sc) \<Longrightarrow> distinct (map fst (scoreCategory caps lm ex e sc))"
  by (cases e) (simp add: scoreCategory_def Let_def fold_scoreAgent_distinct)

lemma fold_scoreCategory_get:
  "distinct (map fst caps) \<Longrightarrow>
   scoresGet (fold (scoreCategory caps lm ex) pats sc) a =
     scoresGet sc a + (if a \<notin> set ex then keywordHits pats caps lm a else 0)"
  by (induction pats arbitrary: sc) (auto simp: scoreCategory_get keywordHits_def)

lemma fold_scoreCategory_keys:
  "fst ` set (fold (scoreCategory caps lm ex) pats sc) =
     fst ` set sc \<union>
     {a. a \<notin> set ex \<and> (\<exists>e \<in> set pats. 0 < matchCount lm (snd e) \<and> serves caps a (fst e))}"
proof (induction pats arbitrary: sc)
  case Nil
  then show ?case by simp
next
  case (Cons e pats)
  show ?case by (simp add: Cons.IH scoreCategory_keys) blast
qed

lemma fold_scoreCategory_distinct:
  "distinct (map fst sc) \<Longrightarrow> distinct (map fst (fold (scoreCategory caps lm ex) pats sc))"
  by (induction pats arbitrary: sc) (auto simp: scoreCategory_distinct)

lemma scoreAll_get:
  "distinct (map fst caps) \<Longrightarrow>
   scoresGet (scoreAll pats caps lm ex) a = (if a \<notin> set ex then keywordHits pats caps lm a else 0)"
  by (simp add: scoreAll_def fold_scoreCategory_get) (simp add: scoresGet_def)

lemma scoreAll_keys:
  "fst ` set (scoreAll pats caps lm ex) =
     {a. a \<notin> set ex \<and> (\<exists>e \<in> set pats. 0 < matchCount lm (snd e) \<and> serves caps a (fst e))}"
  by (simp add: scoreAll_def fold_scoreCategory_keys)

lemma scoreAll_distinct: "distinct (map fst (scoreAll pats caps lm ex))"
  by (simp add: scoreAll_def fold_scoreCategory_distinct)

lemma scoresGet_entry: "distinct (map fst sc) \<Longrightarrow> e \<in> set sc \<Longrightarrow> scoresGet sc (fst e) = snd e"
  by (cases e) (simp add: scoresGet_def)

lemma sortByScore_set: "set (sortByScore sc) = set sc"
  by (simp add: sortByScore_def)

lemma sortByScore_sorted: "sorted_wrt (\<lambda>x y. snd y \<le> snd x) (sortByScore sc)"
proof -
  have "sorted (map (\<lambda>e. - int (snd e)) (sortByScore sc))"
    unfolding sortByScore_def by (rule sorted_sort_key)
  then show ?thesis
    by (simp add: sorted_wrt_map)
qed

lemma sortByScore_distinct:
  "distinct (map fst sc) \<Longrightarrow> distinct (map fst (sortByScore sc))"
proof -
  assume d: "distinct (map fst sc)"
  have "mset (map fst (sortByScore sc)) = mset (map fst sc)"
    by (simp add: sortByScore_def)
  then show ?thesis using d by (metis mset_eq_imp_distinct_iff)
qed

lemma matchCount_pos: "0 < matchCount lm kws \<longleftrightarrow> (\<exists>k \<in> set kws. includes_str lm k)"
  by (simp add: matchCount_def filter_empty_conv)

lemma keywordHits_pos:
  "0 < keywordHits pats caps lm a \<Longrightarrow>
   \<exists>e \<in> set pats. 0 < matchCount lm (snd e) \<and> serves caps a (fst e)"
  unfolding keywordHits_def by (induction pats) (auto split: if_splits)

section \<open>C3: what recommendAgents returns\<close>

text \<open>
  C3, as the code has it. For every message and every exclusion list, \<open>recommendAgents\<close>
  returns at most three agent identifiers, and at least one when nothing is excluded.
  When the lower-cased message contains a trigger keyword of a category that some
  agent outside the exclusion list has in its capability list, the result is non-empty and
  free of duplicates, every agent returned has in its capability list some category with a
  trigger keyword in the message (not necessarily the category one started from), the
  agents are ranked by descending keyword-hit score, and no agent left out scores higher
  than one returned. When no agent has a matched category in its capability list, the
  result is the fixed default pair \<open>workday\<close>, \<open>policy\<close>, less the excluded agents.
  The tables are those of any two \<open>Map\<close>s, the keys of the capability map being distinct.
\<close>

theorem recommendAgents_ranked:
  assumes caps: "distinct (map fst caps)"
  shows "length (recommendAgentsWith pats caps msg ex) \<le> 3 \<and>
         (ex = [] \<longrightarrow> recommendAgentsWith pats caps msg ex \<noteq> []) \<and>
         ((\<exists>a e. a \<notin> set ex \<and> e \<in> set pats \<and> serves caps a (fst e) \<and>
              (\<exists>k \<in> set (snd e). includes_str (toLowerCase msg) k)) \<longrightarrow>
            recommendAgentsWith pats caps msg ex \<noteq> [] \<and>
            distinct (recommendAgentsWith pats caps msg ex) \<and>
            (\<forall>a \<in> set (recommendAgentsWith pats caps msg ex).
               a \<notin> set ex \<and>
               (\<exists>e \<in> set pats. serves caps a (fst e) \<and>
                  (\<exists>k \<in> set (snd e). includes_str (toLowerCase msg) k))) \<and>
            sorted_wrt (\<lambda>a b. keywordHits pats caps (toLowerCase msg) b
                               \<le> keywordHits pats caps (toLowerCase msg) a)
              (recommendAgentsWith pats caps msg ex) \<and>
            (\<forall>a \<in> set (recommendAgentsWith pats caps msg ex).
               \<forall>b. b \<notin> set ex \<and> b \<notin> set (recommendAgentsWith pats caps msg ex) \<longrightarrow>
                 keywordHits pats caps (toLowerCase msg) b
                   \<le> keywordHits pats caps (toLowerCase msg) a)) \<and>
         (\<not> (\<exists>a e. a \<notin> set ex \<and> e \<in> set pats \<and> serves caps a (fst e) \<and>
              (\<exists>k \<in> set (snd e). includes_str (toLowerCase msg) k)) \<longrightarrow>
            recommendAgentsWith pats caps msg ex =
              filter (\<lambda>a. a \<notin> set ex) [''workday'', ''policy''])"
proof -
  define lm where "lm = toLowerCase msg"
  define sc where "sc = scoreAll pats caps lm ex"
  define so where "so = map fst (sortByScore sc)"
  define kh where "kh = keywordHits pats caps lm"
  define res where "res = recommendAgentsWith pats caps msg ex"
  define served where
    "served \<longleftrightarrow> (\<exists>a e. a \<notin> set ex \<and> e \<in> set pats \<and> serves caps a (fst e) \<and>
                     (\<exists>k \<in> set (snd e). includes_str lm k))"
  have res: "res = (if take 3 so = [] then filter (\<lambda>a. a \<notin> set ex) [''workday'', ''policy'']
                    else take 3 so)"
    by (simp add: res_def recommendAgentsWith_def Let_def lm_def sc_def so_def)
  have keys: "set so = {a. a \<notin> set ex \<and>
                 (\<exists>e \<in> set pats. 0 < matchCount lm (snd e) \<and> serves caps a (fst e))}"
    by (simp add: so_def sc_def sortByScore_set scoreAll_keys)
  have dso: "distinct so"
    by (simp add: so_def sc_def sortByScore_distinct scoreAll_distinct)
  have score: "snd e = kh (fst e)" if "e \<in> set (sortByScore sc)" for e
  proof -
    from that have e: "e \<in> set sc" by (simp add: sortByScore_set)
    then have "fst e \<in> fst ` set sc" by blast
    then have "fst e \<notin> set ex" by (simp add: sc_def scoreAll_keys)
    moreover have "scoresGet sc (fst e) = snd e"
      using e by (simp add: scoresGet_entry sc_def scoreAll_distinct)
    ultimately show ?thesis
      using scoreAll_get [OF caps, of pats lm ex "fst e"] by (simp add: sc_def kh_def)
  qed
  have sorted_so: "sorted_wrt (\<lambda>a b. kh b \<le> kh a) so"
  proof -
    have "sorted_wrt (\<lambda>x y. kh (fst y) \<le> kh (fst x)) (sortByScore sc)"
      using sortByScore_sorted [of sc] score
      by (auto elim!: sorted_wrt_mono_rel [rotated])
    then show ?thesis by (simp add: so_def sorted_wrt_map)
  qed
  have served_iff: "served \<longleftrightarrow> so \<noteq> []"
  proof -
    have "so \<noteq> [] \<longleftrightarrow> set so \<noteq> {}" by simp
    also have "\<dots> \<longleftrightarrow> served"
      unfolding keys matchCount_pos served_def by blast
    finally show ?thesis by simp
  qed
  have p1: "length res \<le> 3" by (simp add: res)
  have p2: "ex = [] \<longrightarrow> res \<noteq> []" unfolding res by simp
  have p3: "res \<noteq> [] \<and> distinct res \<and>
         (\<forall>a \<in> set res. a \<notin> set ex \<and>
            (\<exists>e \<in> set pats. serves caps a (fst e) \<and> (\<exists>k \<in> set (snd e). includes_str lm k))) \<and>
         sorted_wrt (\<lambda>a b. kh b \<le> kh a) res \<and>
         (\<forall>a \<in> set res. \<forall>b. b \<notin> set ex \<and> b \<notin> set res \<longrightarrow> kh b \<le> kh a)"
    if served
  proof -
    from that have ne: "so \<noteq> []" using served_iff by blast
    then have t: "take 3 so \<noteq> []" by (cases so) simp_all
    have r: "res = take 3 so" unfolding res using t by (rule if_not_P)
    have c1: "res \<noteq> []" using t by (simp add: r)
    have c2: "distinct res" using dso by (simp add: r)
    have sub: "set res \<subseteq> set so" by (simp add: r set_take_subset)
    have c3: "\<forall>a \<in> set res. a \<notin> set ex \<and>
            (\<exists>e \<in> set pats. serves caps a (fst e) \<and> (\<exists>k \<in> set (snd e). includes_str lm k))"
      using sub unfolding keys matchCount_pos by blast
    have c4: "sorted_wrt (\<lambda>a b. kh b \<le> kh a) res"
      using sorted_so by (simp add: r sorted_wrt_take)
    have c5: "kh b \<le> kh a" if a: "a \<in> set res" and b: "b \<notin> set ex" "b \<notin> set res" for a b
    proof (cases "b \<in> set so")
      case True
      have "so = take 3 so @ drop 3 so" by simp
      then have "set so = set (take 3 so) \<union> set (drop 3 so)" by (metis set_append)
      with True b have bd: "b \<in> set (drop 3 so)" by (simp add: r)
      have "sorted_wrt (\<lambda>a b. kh b \<le> kh a) (take 3 so @ drop 3 so)"
        using sorted_so by simp
      then show ?thesis using a bd unfolding sorted_wrt_append by (simp add: r)
    next
      case False
      have "kh b = 0"
      proof (rule ccontr)
        assume "kh b \<noteq> 0"
        then have "0 < keywordHits pats caps lm b" by (simp add: kh_def)
        from keywordHits_pos [OF this] b(1) have "b \<in> set so" unfolding keys by blast
        with False show False by simp
      qed
      then show ?thesis by simp
    qed
    from c1 c2 c3 c4 c5 show ?thesis by blast
  qed
  have p4: "res = filter (\<lambda>a. a \<notin> set ex) [''workday'', ''policy'']" if "\<not> served"
    using that unfolding served_iff by (simp add: res)
  from p1 p2 p3 p4 show ?thesis
    unfolding res_def served_def kh_def lm_def by blast
qed

text \<open>The theorem at the message \<open>Vacation policy\<close> against the tables of the source.\<close>

theorem recommendAgents_ranked_witness:
  "distinct (map fst agentCapabilities) \<and>
   ''workday'' \<notin> set [] \<and>
   (''hr'', [''vacation'', ''pto'', ''time off'', ''benefits'', ''insurance'', ''401k'',
             ''payroll'', ''salary'', ''leave'', ''holiday'', ''sick day'']) \<in> set routingPatterns \<and>
   serves agentCapabilities ''workday'' ''hr'' \<and>
   includes_str (toLowerCase ''Vacation policy'') ''vacation'' \<and>
   recommendAgents ''Vacation policy'' [] = [''workday'', ''policy''] \<and>
   length (recommendAgents ''Vacation policy'' []) \<le> 3 \<and>
   distinct (recommendAgents ''Vacation policy'' [])"
proof -
  have h: "distinct (map fst agentCapabilities)"
    by (simp add: agentCapabilities_def)
  have e: "(''hr'', [''vacation'', ''pto'', ''time off'', ''benefits'', ''insurance'', ''401k'',
             ''payroll'', ''salary'', ''leave'', ''holiday'', ''sick day'']) \<in> set routingPatterns"
    by (simp add: routingPatterns_def)
  have s: "serves agentCapabilities ''workday'' ''hr''"
    by (simp add: serves_def agentCapabilities_def)
  have i: "includes_str (toLowerCase ''Vacation policy'') ''vacation''"
    by code_simp
  have v: "recommendAgents ''Vacation policy'' [] = [''workday'', ''policy'']"
    by code_simp
  have "\<exists>a e. a \<notin> set [] \<and> e \<in> set routingPatterns \<and> serves agentCapabilities a (fst e) \<and>
              (\<exists>k \<in> set (snd e). includes_str (toLowerCase ''Vacation policy'') k)"
    using e s i by fastforce
  with recommendAgents_ranked [OF h, of routingPatterns "''Vacation policy''" "[]"]
  have "length (recommendAgents ''Vacation policy'' []) \<le> 3 \<and>
        distinct (recommendAgents ''Vacation policy'' [])"
    unfolding recommendAgents_def by blast
  with h e s i v show ?thesis by simp
qed

text \<open>
  C3 as stated fails: \<open>vacation\<close> is a trigger keyword of the category \<open>hr\<close>, the
  message \<open>Vacation policy\<close> contains it, and the agents returned are \<open>workday\<close> and
  \<open>policy\<close>, of which \<open>policy\<close>, returned for the category \<open>policy\<close>, does not have
  \<open>hr\<close> in its capability list.
\<close>

theorem recommendAgents_category_counterexample:
  "map_of routingPatterns ''hr'' =
     Some [''vacation'', ''pto'', ''time off'', ''benefits'', ''insurance'', ''401k'',
           ''payroll'', ''salary'', ''leave'', ''holiday'', ''sick day''] \<and>
   includes_str (toLowerCase ''Vacation policy'') ''vacation'' \<and>
   recommendAgents ''Vacation policy'' [] = [''workday'', ''policy''] \<and>
   map_of agentCapabilities ''policy'' = Some [''policy'', ''compliance'', ''procedures''] \<and>
   \<not> serves agentCapabilities ''policy'' ''hr''"
  by code_simp

section \<open>C4: synthesizeResponses\<close>

lemma findIndex_bounds: "- 1 \<le> findIndex P xs \<and> findIndex P xs < int (length xs)"
  by (induction xs) (auto simp: Let_def)

lemma findIndex_nonneg: "0 \<le> findIndex P xs \<longleftrightarrow> (\<exists>y \<in> set xs. P y)"
  by (induction xs) (auto simp: Let_def)

lemma findIndex_neg: "\<not> 0 \<le> findIndex P xs \<Longrightarrow> findIndex P xs = - 1"
  using findIndex_bounds [of P xs] by linarith

lemma findIndex_append:
  "findIndex P (xs @ ys) =
     (if 0 \<le> findIndex P xs then findIndex P xs
      else if 0 \<le> findIndex P ys then int (length xs) + findIndex P ys else - 1)"
  by (induction xs) (auto simp: Let_def findIndex_neg)

lemma findIndex_first:
  "P x \<Longrightarrow> findIndex P (pre @ x # xs) = int (length pre) \<longleftrightarrow> (\<forall>y \<in> set pre. \<not> P y)"
  using findIndex_bounds [of P pre] findIndex_nonneg [of P pre]
  by (auto simp: findIndex_append)

lemma uniqueSources_gen:
  "map snd (filter (\<lambda>(i, src). int i = findIndex (\<lambda>s. name s = name src) (pre @ suf))
              (enumerate (length pre) suf))
   = filter (\<lambda>s. name s \<notin> name ` set pre) (firstByName suf)"
proof (induction suf arbitrary: pre)
  case Nil
  then show ?case by simp
next
  case (Cons x xs)
  have first: "int (length pre) = findIndex (\<lambda>s. name s = name x) (pre @ x # xs)
                 \<longleftrightarrow> name x \<notin> name ` set pre"
  proof -
    have "(\<forall>y \<in> set pre. name y \<noteq> name x) \<longleftrightarrow> name x \<notin> name ` set pre"
      by (simp add: image_iff) metis
    then show ?thesis
      using findIndex_first [of "\<lambda>s. name s = name x" x pre xs] by (simp add: eq_commute)
  qed
  have rest: "map snd (filter (\<lambda>(i, src). int i = findIndex (\<lambda>s. name s = name src) (pre @ x # xs))
                         (enumerate (Suc (length pre)) xs))
              = filter (\<lambda>s. name s \<notin> name ` set (pre @ [x])) (firstByName xs)"
    using Cons.IH [of "pre @ [x]"] by simp
  have ff: "filter (\<lambda>s. name s \<notin> name ` set pre) (filter (\<lambda>s. name s \<noteq> name x) (firstByName xs))
            = filter (\<lambda>s. name s \<notin> name ` set (pre @ [x])) (firstByName xs)"
    by (auto intro: filter_cong)
  show ?case
    using first rest ff by simp
qed

lemma uniqueSources_firstByName: "uniqueSources arr = firstByName arr"
  using uniqueSources_gen [of "[]" arr] by (simp add: uniqueSources_def)

lemma image_name_filter: "name ` {s \<in> A. name s \<noteq> n} = name ` A - {n}"
  by auto

lemma firstByName_names: "name ` set (firstByName xs) = name ` set xs"
  by (induction xs) (auto simp: image_name_filter)

lemma firstByName_distinct: "distinct (map name (firstByName xs))"
proof (induction xs)
  case Nil
  then show ?case by simp
next
  case (Cons x xs)
  have "distinct (map name (filter (\<lambda>s. name s \<noteq> name x) (firstByName xs)))"
    using Cons.IH by (simp add: distinct_map_filter)
  then show ?case by auto
qed

lemma firstByName_find:
  "x \<in> set (firstByName xs) \<Longrightarrow> find (\<lambda>s. name s = name x) xs = Some x"
  by (induction xs) (auto)

lemma foldl_sources: "foldl (\<lambda>acc r. acc @ sources r) a rs = a @ concat (map sources rs)"
  by (induction rs arbitrary: a) auto

lemma foldl_confidence:
  "foldl (\<lambda>t r. t + confidence r) a rs = a + sum_list (map confidence rs)"
  by (induction rs arbitrary: a) auto

lemma synthesizeResponses_single:
  "synthesizeResponses [r] s =
     \<lparr> content = content r, sources = sources r, confidence = confidence r,
       responseAgents = [agentId r], synthesized = False \<rparr>"
  by (simp add: synthesizeResponses_def)

lemma synthesizeResponses_many:
  assumes "2 \<le> length results"
  shows "sources (synthesizeResponses results s) = firstByName (concat (map sources results))"
    and "confidence (synthesizeResponses results s)
           = sum_list (map confidence results) / real (length results)"
    and "synthesized (synthesizeResponses results s)"
    and "responseAgents (synthesizeResponses results s) = map agentId results"
proof -
  from assms obtain a b rest where r: "results = a # b # rest"
    by (cases results; cases "tl results") auto
  show "sources (synthesizeResponses results s) = firstByName (concat (map sources results))"
    unfolding r synthesizeResponses_def
    by (simp add: Let_def uniqueSources_firstByName foldl_sources)
  show "confidence (synthesizeResponses results s)
           = sum_list (map confidence results) / real (length results)"
    unfolding r synthesizeResponses_def
    by (simp add: Let_def foldl_confidence)
  show "synthesized (synthesizeResponses results s)"
    unfolding r synthesizeResponses_def by (simp add: Let_def)
  show "responseAgents (synthesizeResponses results s) = map agentId results"
    unfolding r synthesizeResponses_def by (simp add: Let_def)
qed

text \<open>
  C4. Given a single result, \<open>synthesizeResponses\<close> returns its content, sources and
  confidence unchanged, with \<open>synthesized = false\<close>. Given two or more results, the
  source list is the concatenation of the per-agent source lists de-duplicated by name,
  the first occurrence retained (so the names are distinct, every name is kept, and the
  source kept for a name is the first of that name in the concatenation), the confidence
  is the arithmetic mean of the per-agent confidences, and \<open>synthesized = true\<close>.
\<close>

theorem synthesizeResponses_correct:
  "synthesizeResponses [r] s =
     \<lparr> content = content r, sources = sources r, confidence = confidence r,
       responseAgents = [agentId r], synthesized = False \<rparr> \<and>
   (2 \<le> length results \<longrightarrow>
      sources (synthesizeResponses results s) = firstByName (concat (map sources results)) \<and>
      distinct (map name (sources (synthesizeResponses results s))) \<and>
      name ` set (sources (synthesizeResponses results s))
        = name ` set (concat (map sources results)) \<and>
      (\<forall>x \<in> set (sources (synthesizeResponses results s)).
         find (\<lambda>src. name src = name x) (concat (map sources results)) = Some x) \<and>
      confidence (synthesizeResponses results s)
        = sum_list (map confidence results) / real (length results) \<and>
      synthesized (synthesizeResponses results s) \<and>
      responseAgents (synthesizeResponses results s) = map agentId results)"
proof (intro conjI impI)
  show "synthesizeResponses [r] s =
     \<lparr> content = content r, sources = sources r, confidence = confidence r,
       responseAgents = [agentId r], synthesized = False \<rparr>"
    by (rule synthesizeResponses_single)
next
  assume l: "2 \<le> length results"
  note m = synthesizeResponses_many [OF l, of s]
  show "sources (synthesizeResponses results s) = firstByName (concat (map sources results))"
    by (rule m(1))
  show "distinct (map name (sources (synthesizeResponses results s)))"
    by (simp only: m(1) firstByName_distinct)
  show "name ` set (sources (synthesizeResponses results s))
        = name ` set (concat (map sources results))"
    by (simp only: m(1) firstByName_names)
  show "\<forall>x \<in> set (sources (synthesizeResponses results s)).
         find (\<lambda>src. name src = name x) (concat (map sources results)) = Some x"
    unfolding m(1) using firstByName_find by blast
  show "confidence (synthesizeResponses results s)
        = sum_list (map confidence results) / real (length results)"
    by (rule m(2))
  show "synthesized (synthesizeResponses results s)"
    by (rule m(3))
  show "responseAgents (synthesizeResponses results s) = map agentId results"
    by (rule m(4))
qed

text \<open>
  The theorem at two results whose sources are named \<open>A\<close>, \<open>A\<close> and \<open>B\<close>: the
  synthesis keeps the first \<open>A\<close> and \<open>B\<close>, and its confidence is the mean of 0.9 and 0.7.
\<close>

theorem synthesizeResponses_correct_witness:
  "(2::nat) \<le> length
      [\<lparr> content = ''x'',
         sources = [\<lparr> name = ''A'', description = ''first'' \<rparr>,
                    \<lparr> name = ''A'', description = ''second'' \<rparr>],
         confidence = 0.9, responseTime = 10, agentId = ''workday'' \<rparr>,
       \<lparr> content = ''y'', sources = [\<lparr> name = ''B'', description = ''third'' \<rparr>],
         confidence = 0.7, responseTime = 20, agentId = ''policy'' \<rparr>] \<and>
   sources (synthesizeResponses
      [\<lparr> content = ''x'',
         sources = [\<lparr> name = ''A'', description = ''first'' \<rparr>,
                    \<lparr> name = ''A'', description = ''second'' \<rparr>],
         confidence = 0.9, responseTime = 10, agentId = ''workday'' \<rparr>,
       \<lparr> content = ''y'', sources = [\<lparr> name = ''B'', description = ''third'' \<rparr>],
         confidence = 0.7, responseTime = 20, agentId = ''policy'' \<rparr>] newOrchestrator)
     = [\<lparr> name = ''A'', description = ''first'' \<rparr>, \<lparr> name = ''B'', description = ''third'' \<rparr>] \<and>
   confidence (synthesizeResponses
      [\<lparr> content = ''x'',
         sources = [\<lparr> name = ''A'', description = ''first'' \<rparr>,
                    \<lparr> name = ''A'', description = ''second'' \<rparr>],
         confidence = 0.9, responseTime = 10, agentId = ''workday'' \<rparr>,
       \<lparr> content = ''y'', sources = [\<lparr> name = ''B'', description = ''third'' \<rparr>],
         confidence = 0.7, responseTime = 20, agentId = ''policy'' \<rparr>] newOrchestrator)
     = 0.8"
  using synthesizeResponses_correct
    [of "\<lparr> content = ''x'', sources = [], confidence = 0.9, responseTime = 10,
           agentId = ''workday'' \<rparr>" newOrchestrator
      "[\<lparr> content = ''x'',
         sources = [\<lparr> name = ''A'', description = ''first'' \<rparr>,
                    \<lparr> name = ''A'', description = ''second'' \<rparr>],
         confidence = 0.9, responseTime = 10, agentId = ''workday'' \<rparr>,
       \<lparr> content = ''y'', sources = [\<lparr> name = ''B'', description = ''third'' \<rparr>],
         confidence = 0.7, responseTime = 20, agentId = ''policy'' \<rparr>]"]
  by simp

section \<open>C9: the cache key\<close>









section \<open>What the steps leave alone\<close>

lemma updateAgentMetrics_frame [simp]:
  "agents (updateAgentMetrics a rt b s) = agents s"
  "activeQueries (updateAgentMetrics a rt b s) = activeQueries s"
  "queryHistory (updateAgentMetrics a rt b s) = queryHistory s"
  "config (updateAgentMetrics a rt b s) = config s"
  "responseCache (updateAgentMetrics a rt b s) = responseCache s"
  "delivered (updateAgentMetrics a rt b s) = delivered s"
  "agentCalls (updateAgentMetrics a rt b s) = agentCalls s"
  by (simp_all add: updateAgentMetrics_def Let_def split: option.splits)

lemma updatePerformanceMetrics_frame [simp]:
  "agents (updatePerformanceMetrics l rt b s) = agents s"
  "activeQueries (updatePerformanceMetrics l rt b s) = activeQueries s"
  "queryHistory (updatePerformanceMetrics l rt b s) = queryHistory s"
  "config (updatePerformanceMetrics l rt b s) = config s"
  "responseCache (updatePerformanceMetrics l rt b s) = responseCache s"
  "delivered (updatePerformanceMetrics l rt b s) = delivered s"
  "agentCalls (updatePerformanceMetrics l rt b s) = agentCalls s"
  unfolding updatePerformanceMetrics_def
  by (induction l arbitrary: s; simp)+

lemma deliverResponse_frame [simp]:
  "agents (deliverResponse w r t s) = agents s"
  "activeQueries (deliverResponse w r t s) = activeQueries s"
  "queryHistory (deliverResponse w r t s) = queryHistory s"
  "performanceMetrics (deliverResponse w r t s) = performanceMetrics s"
  "config (deliverResponse w r t s) = config s"
  "responseCache (deliverResponse w r t s) = responseCache s"
  "delivered (deliverResponse w r t s) = delivered s @ [ResponseReady w r t]"
  "agentCalls (deliverResponse w r t s) = agentCalls s"
  by (simp_all add: deliverResponse_def)

lemma deliverErrorResponse_frame [simp]:
  "agents (deliverErrorResponse w err t s) = agents s"
  "activeQueries (deliverErrorResponse w err t s) = activeQueries s"
  "queryHistory (deliverErrorResponse w err t s) = queryHistory s"
  "performanceMetrics (deliverErrorResponse w err t s) = performanceMetrics s"
  "config (deliverErrorResponse w err t s) = config s"
  "responseCache (deliverErrorResponse w err t s) = responseCache s"
  "agentCalls (deliverErrorResponse w err t s) = agentCalls s"
  by (simp_all add: deliverErrorResponse_def)

lemma logQuery_frame [simp]:
  "agents (logQuery i q r d t s) = agents s"
  "activeQueries (logQuery i q r d t s) = activeQueries s"
  "performanceMetrics (logQuery i q r d t s) = performanceMetrics s"
  "config (logQuery i q r d t s) = config s"
  "responseCache (logQuery i q r d t s) = responseCache s"
  "delivered (logQuery i q r d t s) = delivered s"
  "agentCalls (logQuery i q r d t s) = agentCalls s"
  by (simp_all add: logQuery_def Let_def)

lemma cleanExpiredCache_frame [simp]:
  "agents (cleanExpiredCache n s) = agents s"
  "activeQueries (cleanExpiredCache n s) = activeQueries s"
  "queryHistory (cleanExpiredCache n s) = queryHistory s"
  "performanceMetrics (cleanExpiredCache n s) = performanceMetrics s"
  "config (cleanExpiredCache n s) = config s"
  "delivered (cleanExpiredCache n s) = delivered s"
  "agentCalls (cleanExpiredCache n s) = agentCalls s"
  by (simp_all add: cleanExpiredCache_def)

lemma executeSingleQuery_frame [simp]:
  "agents (snd (executeSingleQuery e qd a s)) = agents s"
  "activeQueries (snd (executeSingleQuery e qd a s)) = activeQueries s"
  "queryHistory (snd (executeSingleQuery e qd a s)) = queryHistory s"
  "config (snd (executeSingleQuery e qd a s)) = config s"
  "responseCache (snd (executeSingleQuery e qd a s)) = responseCache s"
  "delivered (snd (executeSingleQuery e qd a s)) = delivered s"
  by (simp_all add: executeSingleQuery_def Let_def split: option.splits sum.splits)

lemma executeSingleQuery_calls:
  "agentCalls (snd (executeSingleQuery e qd a s)) =
     agentCalls s @ (if callable s a \<and> qd \<noteq> None then [a] else [])"
  by (simp add: executeSingleQuery_def callable_def Let_def split: option.splits sum.splits)

lemma executeSingleQuery_outcome:
  "agents s' = agents s \<Longrightarrow>
   fst (executeSingleQuery e qd a s') = fst (executeSingleQuery e qd a s)"
  by (simp add: executeSingleQuery_def Let_def split: option.splits sum.splits)

lemma executeSingleQuery_not_callable:
  "\<not> callable s a \<Longrightarrow> isl (fst (executeSingleQuery e qd a s)) \<and> snd (executeSingleQuery e qd a s) = s"
  by (auto simp: executeSingleQuery_def callable_def Let_def split: option.splits sum.splits)

lemma allSettled_frame [simp]:
  "agents (snd (allSettled e qd l s)) = agents s"
  "activeQueries (snd (allSettled e qd l s)) = activeQueries s"
  "queryHistory (snd (allSettled e qd l s)) = queryHistory s"
  "config (snd (allSettled e qd l s)) = config s"
  "responseCache (snd (allSettled e qd l s)) = responseCache s"
  "delivered (snd (allSettled e qd l s)) = delivered s"
  by (induction l arbitrary: s; simp add: case_prod_unfold)+

lemma allSettled_outcomes:
  "fst (allSettled e qd l s) = map (\<lambda>a. fst (executeSingleQuery e qd a s)) l"
proof (induction l arbitrary: s)
  case Nil
  then show ?case by simp
next
  case (Cons a l)
  have "map (\<lambda>b. fst (executeSingleQuery e qd b (snd (executeSingleQuery e qd a s)))) l
        = map (\<lambda>b. fst (executeSingleQuery e qd b s)) l"
    by (rule map_cong [OF refl]) (rule executeSingleQuery_outcome, simp)
  then show ?case by (simp add: case_prod_unfold Cons.IH)
qed

lemma callable_cong: "agents s' = agents s \<Longrightarrow> callable s' = callable s"
  by (simp add: callable_def fun_eq_iff)

lemma allSettled_calls:
  "agentCalls (snd (allSettled e qd l s)) =
     agentCalls s @ (if qd \<noteq> None then filter (callable s) l else [])"
proof (induction l arbitrary: s)
  case Nil
  then show ?case by simp
next
  case (Cons a l)
  have "callable (snd (executeSingleQuery e qd a s)) = callable s"
    by (rule callable_cong) simp
  then show ?case
    by (simp add: case_prod_unfold Cons.IH executeSingleQuery_calls)
qed

lemma synthesizeResponses_agents:
  "responseAgents (synthesizeResponses rs s) = map agentId rs"
  by (simp add: synthesizeResponses_def Let_def split: list.splits)

lemma successfulResults_ids:
  "map agentId (successfulResults ids (map f ids)) = filter (\<lambda>a. \<not> isl (f a)) ids"
  by (induction ids) (auto simp: successfulResults_def split: sum.splits)

lemma successfulResults_empty:
  "successfulResults ids (map f ids) = [] \<longleftrightarrow> (\<forall>a \<in> set ids. isl (f a))"
  by (induction ids) (auto simp: successfulResults_def split: sum.splits)

lemma executeParallelQueries_snd:
  "snd (executeParallelQueries e qd plan s) = snd (allSettled e qd (planAgents plan) s)"
  by (simp add: executeParallelQueries_def case_prod_unfold Let_def)

lemma executeParallelQueries_fst:
  "fst (executeParallelQueries e qd plan s) =
     (if \<forall>a \<in> set (planAgents plan). isl (outcome e qd s a) then Inl AllAgentsFailed
      else Inr (synthesizeResponses
                  (successfulResults (planAgents plan) (map (outcome e qd s) (planAgents plan)))
                  (snd (allSettled e qd (planAgents plan) s))))"
  using successfulResults_empty [of "planAgents plan" "outcome e qd s"]
  by (simp add: executeParallelQueries_def case_prod_unfold Let_def allSettled_outcomes)

section \<open>The paths through processQuery\<close>

lemma delivered_deliverErrorResponse [simp]:
  "delivered (deliverErrorResponse w err t s) =
     delivered s @ [ResponseReady w
        (ErrorResponse (''I encountered an error processing your request: '' @ errorMessage err
           @ ''. Please try again or contact support if the issue persists.'')) t]"
  by (simp add: deliverErrorResponse_def)

lemma queryHistory_logQuery:
  "queryHistory (logQuery i q r d t s) =
     (let pushed = queryHistory s @
        [\<lparr> log_queryId = i, log_timestamp = t, log_message = message q,
           log_agents = (case queryAgents q of None \<Rightarrow> [] | Some l \<Rightarrow> l),
           log_responseAgents = (case responseAgentList r of None \<Rightarrow> [] | Some l \<Rightarrow> l),
           log_duration = d, log_success = (\<not> responseError r),
           log_confidence = (case responseConfidence r of None \<Rightarrow> 0 | Some c \<Rightarrow> c),
           log_synthesized = (case responseSynthesized r of None \<Rightarrow> False | Some b \<Rightarrow> b),
           log_cached = False \<rparr>]
      in if length pushed > 1000 then tl pushed else pushed)"
  by (simp add: logQuery_def Let_def)

lemma executeParallelQueries_frame [simp]:
  "agents (snd (executeParallelQueries e qd plan s)) = agents s"
  "activeQueries (snd (executeParallelQueries e qd plan s)) = activeQueries s"
  "queryHistory (snd (executeParallelQueries e qd plan s)) = queryHistory s"
  "config (snd (executeParallelQueries e qd plan s)) = config s"
  "responseCache (snd (executeParallelQueries e qd plan s)) = responseCache s"
  "delivered (snd (executeParallelQueries e qd plan s)) = delivered s"
  by (simp_all add: executeParallelQueries_def case_prod_unfold Let_def)

lemma executeQueryPlan_snd:
  "snd (executeQueryPlan e qid plan s) =
     (if parallel plan \<and> length (planAgents plan) > 1
      then snd (executeParallelQueries e (activeQueries s qid) plan s)
      else (case planAgents plan of [] \<Rightarrow> s
            | a # rest \<Rightarrow> snd (executeSingleQuery e (activeQueries s qid) a s)))"
  by (simp add: executeQueryPlan_def Let_def split: prod.splits sum.splits list.splits)

lemma executeQueryPlan_frame [simp]:
  "agents (snd (executeQueryPlan e qid plan s)) = agents s"
  "activeQueries (snd (executeQueryPlan e qid plan s)) = activeQueries s"
  "queryHistory (snd (executeQueryPlan e qid plan s)) = queryHistory s"
  "config (snd (executeQueryPlan e qid plan s)) = config s"
  "responseCache (snd (executeQueryPlan e qid plan s)) = responseCache s"
  "delivered (snd (executeQueryPlan e qid plan s)) = delivered s"
  by (simp_all add: executeQueryPlan_snd split: list.splits)

lemma executeQueryPlanD:
  assumes "executeQueryPlan e qid plan s = (r, s')"
  shows "agents s' = agents s \<and> activeQueries s' = activeQueries s \<and>
         queryHistory s' = queryHistory s \<and> config s' = config s \<and>
         responseCache s' = responseCache s \<and> delivered s' = delivered s"
proof -
  from assms have "s' = snd (executeQueryPlan e qid plan s)" by simp
  then show ?thesis by simp
qed

lemma getCachedResponseD:
  assumes "getCachedResponse now q s = Inr (r, q', s')"
  shows "agents s' = agents s \<and> queryHistory s' = queryHistory s \<and> config s' = config s \<and>
         delivered s' = delivered s \<and> agentCalls s' = agentCalls s \<and>
         q' = q\<lparr>queryAgents := map_option sort (queryAgents q)\<rparr> \<and>
         (\<forall>k c. responseCache s' k = Some c \<longrightarrow> responseCache s k = Some c) \<and>
         (\<forall>c. r = Some c \<longrightarrow> (\<exists>k cached. responseCache s k = Some cached \<and> entryResponse cached = c))"
  using assms
  by (auto simp: getCachedResponse_def generateCacheKey_def Let_def
           split: sum.splits option.splits if_splits) blast+

lemma cacheResponseD:
  assumes "cacheResponse stamp now q r s = Inr (q', s')"
  shows "agents s' = agents s \<and> queryHistory s' = queryHistory s \<and> config s' = config s \<and>
         delivered s' = delivered s \<and> agentCalls s' = agentCalls s \<and>
         q' = q\<lparr>queryAgents := map_option sort (queryAgents q)\<rparr> \<and>
         (\<forall>k c. responseCache s' k = Some c \<longrightarrow>
            responseCache s k = Some c \<or>
            (entryResponse c = r \<and> timestamp c = stamp \<and> (\<exists>q''. generateCacheKey q = Inr (k, q''))))"
  using assms
  by (auto simp: cacheResponse_def cleanExpiredCache_def generateCacheKey_def Let_def
           split: sum.splits option.splits if_splits)


text \<open>The paths through the \<open>try\<close> block of \<open>processQuery\<close>.\<close>

lemma processQueryBody_cases
  [case_names invalid lookupError hit routeError execError cacheError ok]:
  fixes e q s
  defines "lookup \<equiv> (if enableCaching (config s) then getCachedResponse (lookupNow e) q s
                       else Inr (None, q, s))"
  obtains
    (invalid) "\<not> validateQuery q" "processQueryBody e q s = (Inl InvalidQueryFormat, q, s)"
  | (lookupError) err where "validateQuery q" "lookup = Inl err"
      "processQueryBody e q s = (Inl err, q, s)"
  | (hit) c q1 s1 where "validateQuery q" "lookup = Inr (Some c, q1, s1)"
      "processQueryBody e q s = (Inr (), q1, deliverResponse (widgetId q1) c (isoNow e) s1)"
  | (routeError) q1 s1 s2 err where "validateQuery q" "lookup = Inr (None, q1, s1)"
      "s2 = s1\<lparr>activeQueries := (activeQueries s1)
               (queryId e \<mapsto> \<lparr> activeData = q1, activeStartTime = startTime e,
                               activeStatus = ''processing'' \<rparr>)\<rparr>"
      "createRoutingPlan q1 s2 = Inl err"
      "processQueryBody e q s = (Inl err, q1, s2)"
  | (execError) q1 s1 s2 plan err s3 where "validateQuery q" "lookup = Inr (None, q1, s1)"
      "s2 = s1\<lparr>activeQueries := (activeQueries s1)
               (queryId e \<mapsto> \<lparr> activeData = q1, activeStartTime = startTime e,
                               activeStatus = ''processing'' \<rparr>)\<rparr>"
      "createRoutingPlan q1 s2 = Inr plan"
      "executeQueryPlan e (queryId e) plan s2 = (Inl err, s3)"
      "processQueryBody e q s = (Inl err, q1, s3)"
  | (cacheError) q1 s1 s2 plan r s3 err where "validateQuery q" "lookup = Inr (None, q1, s1)"
      "s2 = s1\<lparr>activeQueries := (activeQueries s1)
               (queryId e \<mapsto> \<lparr> activeData = q1, activeStartTime = startTime e,
                               activeStatus = ''processing'' \<rparr>)\<rparr>"
      "createRoutingPlan q1 s2 = Inr plan"
      "executeQueryPlan e (queryId e) plan s2 = (Inr r, s3)"
      "(if enableCaching (config s3) \<and> shouldCacheResponse r
        then cacheResponse (storeNow e) (cleanNow e) q1 r s3 else Inr (q1, s3)) = Inl err"
      "processQueryBody e q s = (Inl err, q1, s3)"
  | (ok) q1 s1 s2 plan r s3 q2 s4 where "validateQuery q" "lookup = Inr (None, q1, s1)"
      "s2 = s1\<lparr>activeQueries := (activeQueries s1)
               (queryId e \<mapsto> \<lparr> activeData = q1, activeStartTime = startTime e,
                               activeStatus = ''processing'' \<rparr>)\<rparr>"
      "createRoutingPlan q1 s2 = Inr plan"
      "executeQueryPlan e (queryId e) plan s2 = (Inr r, s3)"
      "(if enableCaching (config s3) \<and> shouldCacheResponse r
        then cacheResponse (storeNow e) (cleanNow e) q1 r s3 else Inr (q1, s3)) = Inr (q2, s4)"
      "processQueryBody e q s =
         (Inr (), q2,
          logQuery (queryId e) q2 r (duration e) (isoNow e)
            (updatePerformanceMetrics (planAgents plan) (totalTime e) True
               (deliverResponse (widgetId q2) r (isoNow e) s4)))"
proof (cases "validateQuery q")
  case False
  then have "processQueryBody e q s = (Inl InvalidQueryFormat, q, s)"
    by (simp add: processQueryBody_def)
  with False show ?thesis by (rule invalid)
next
  case v: True
  show ?thesis
  proof (cases lookup)
    case (Inl err)
    then have "processQueryBody e q s = (Inl err, q, s)"
      using v unfolding lookup_def by (simp add: processQueryBody_def)
    with v Inl show ?thesis by (rule lookupError)
  next
    case (Inr t)
    obtain c0 q1 s1 where t: "t = (c0, q1, s1)" by (cases t)
    show ?thesis
    proof (cases c0)
      case (Some c)
      have l: "lookup = Inr (Some c, q1, s1)" using Inr t Some by simp
      then have "processQueryBody e q s = (Inr (), q1, deliverResponse (widgetId q1) c (isoNow e) s1)"
        using v unfolding lookup_def by (simp add: processQueryBody_def)
      with v l show ?thesis by (rule hit)
    next
      case None
      have l: "lookup = Inr (None, q1, s1)" using Inr t None by simp
      define s2 where "s2 = s1\<lparr>activeQueries := (activeQueries s1)
               (queryId e \<mapsto> \<lparr> activeData = q1, activeStartTime = startTime e,
                               activeStatus = ''processing'' \<rparr>)\<rparr>"
      show ?thesis
      proof (cases "createRoutingPlan q1 s2")
        case (Inl err)
        have "processQueryBody e q s = (Inl err, q1, s2)"
          using v l Inl unfolding lookup_def s2_def by (simp add: processQueryBody_def Let_def)
        with v l s2_def Inl show ?thesis by (rule routeError)
      next
        case p: (Inr plan)
        obtain x s3 where x: "executeQueryPlan e (queryId e) plan s2 = (x, s3)"
          by (cases "executeQueryPlan e (queryId e) plan s2")
        show ?thesis
        proof (cases x)
          case (Inl err)
          have "processQueryBody e q s = (Inl err, q1, s3)"
            using v l p x Inl unfolding lookup_def s2_def
            by (simp add: processQueryBody_def Let_def)
          with v l s2_def p x [unfolded Inl] show ?thesis by (rule execError)
        next
          case (Inr r)
          note x' = x [unfolded Inr]
          show ?thesis
          proof (cases "if enableCaching (config s3) \<and> shouldCacheResponse r
                        then cacheResponse (storeNow e) (cleanNow e) q1 r s3 else Inr (q1, s3)")
            case (Inl err)
            have "processQueryBody e q s = (Inl err, q1, s3)"
              using v l p x' Inl unfolding lookup_def s2_def
              by (simp add: processQueryBody_def Let_def)
            with v l s2_def p x' Inl show ?thesis by (rule cacheError)
          next
            case c: (Inr u)
            obtain q2 s4 where u: "u = (q2, s4)" by (cases u)
            note c' = c [unfolded u]
            have "processQueryBody e q s =
                   (Inr (), q2,
                    logQuery (queryId e) q2 r (duration e) (isoNow e)
                      (updatePerformanceMetrics (planAgents plan) (totalTime e) True
                         (deliverResponse (widgetId q2) r (isoNow e) s4)))"
              using v l p x' c' unfolding lookup_def s2_def
              by (simp add: processQueryBody_def Let_def)
            with v l s2_def p x' c' show ?thesis by (rule ok)
          qed
        qed
      qed
    qed
  qed
qed


lemma generateCacheKey_sorted:
  "generateCacheKey (q\<lparr>queryAgents := map_option sort (queryAgents q)\<rparr>) = Inr (k, q') \<Longrightarrow>
   \<exists>q''. generateCacheKey q = Inr (k, q'')"
  by (cases "queryAgents q")
     (auto simp: generateCacheKey_def Let_def sorted_sort_id split: option.splits)

lemma lookupD:
  assumes "(if enableCaching (config s) then getCachedResponse now q s else Inr (None, q, s))
             = Inr (r, q', s')"
  shows "agents s' = agents s \<and> queryHistory s' = queryHistory s \<and> config s' = config s \<and>
         delivered s' = delivered s \<and> agentCalls s' = agentCalls s \<and>
         (q' = q \<or> q' = q\<lparr>queryAgents := map_option sort (queryAgents q)\<rparr>) \<and>
         (\<forall>k c. responseCache s' k = Some c \<longrightarrow> responseCache s k = Some c) \<and>
         (\<forall>c. r = Some c \<longrightarrow> enableCaching (config s) \<and>
              (\<exists>k cached. responseCache s k = Some cached \<and> entryResponse cached = c))"
proof (cases "enableCaching (config s)")
  case True
  with assms have "getCachedResponse now q s = Inr (r, q', s')" by simp
  from getCachedResponseD [OF this] True show ?thesis by simp
next
  case False
  with assms show ?thesis by simp
qed

lemma cacheStepD:
  assumes "(if enableCaching (config s) \<and> shouldCacheResponse r
            then cacheResponse stamp now q r s else Inr (q, s)) = Inr (q', s')"
  shows "agents s' = agents s \<and> queryHistory s' = queryHistory s \<and> config s' = config s \<and>
         delivered s' = delivered s \<and> agentCalls s' = agentCalls s \<and>
         (q' = q \<or> q' = q\<lparr>queryAgents := map_option sort (queryAgents q)\<rparr>) \<and>
         (\<forall>k c. responseCache s' k = Some c \<longrightarrow>
            responseCache s k = Some c \<or>
            (enableCaching (config s) \<and> shouldCacheResponse r \<and> entryResponse c = r \<and>
             timestamp c = stamp \<and> (\<exists>q''. generateCacheKey q = Inr (k, q''))))"
proof (cases "enableCaching (config s) \<and> shouldCacheResponse r")
  case True
  with assms have "cacheResponse stamp now q r s = Inr (q', s')" by simp
  from cacheResponseD [OF this] True show ?thesis by simp
next
  case False
  with assms show ?thesis by auto
qed

lemma sortedQuery_fields:
  "q' = q \<or> q' = q\<lparr>queryAgents := map_option sort (queryAgents q)\<rparr> \<Longrightarrow>
   widgetId q' = widgetId q \<and> message q' = message q"
  by auto

lemma generateCacheKey_either:
  "q' = q \<or> q' = q\<lparr>queryAgents := map_option sort (queryAgents q)\<rparr> \<Longrightarrow>
   generateCacheKey q' = Inr (k, q2) \<Longrightarrow> \<exists>q''. generateCacheKey q = Inr (k, q'')"
  using generateCacheKey_sorted by blast


lemma queryHistory_logQuery_cong:
  "queryHistory s' = queryHistory s \<Longrightarrow>
   queryHistory (logQuery i q r d t s') = queryHistory (logQuery i q r d t s)"
  by (simp add: queryHistory_logQuery)

lemma queryHistory_logQuery_ex:
  "\<exists>entry. log_queryId entry = i \<and>
     queryHistory (logQuery i q r d t s) =
       (if length (queryHistory s @ [entry]) > 1000 then tl (queryHistory s @ [entry])
        else queryHistory s @ [entry])"
  by (rule exI [where x = "\<lparr> log_queryId = i, log_timestamp = t, log_message = message q,
           log_agents = (case queryAgents q of None \<Rightarrow> [] | Some l \<Rightarrow> l),
           log_responseAgents = (case responseAgentList r of None \<Rightarrow> [] | Some l \<Rightarrow> l),
           log_duration = d, log_success = (\<not> responseError r),
           log_confidence = (case responseConfidence r of None \<Rightarrow> 0 | Some c \<Rightarrow> c),
           log_synthesized = (case responseSynthesized r of None \<Rightarrow> False | Some b \<Rightarrow> b),
           log_cached = False \<rparr>"])
     (simp add: queryHistory_logQuery Let_def)

lemma processQuery_summary:
  "\<exists>r. delivered (processQuery e q s) = delivered s @ [ResponseReady (widgetId q) r (isoNow e)] \<and>
       (queryHistory (processQuery e q s) = queryHistory s \<or>
        (\<exists>entry. log_queryId entry = queryId e \<and>
           queryHistory (processQuery e q s) =
             (if length (queryHistory s @ [entry]) > 1000 then tl (queryHistory s @ [entry])
              else queryHistory s @ [entry]))) \<and>
       (\<forall>k c. responseCache (processQuery e q s) k = Some c \<longrightarrow>
          responseCache s k = Some c \<or>
          (enableCaching (config s) \<and> shouldCacheResponse r \<and> entryResponse c = r \<and>
           timestamp c = storeNow e \<and> (\<exists>q''. generateCacheKey q = Inr (k, q'')))) \<and>
       config (processQuery e q s) = config s \<and> agents (processQuery e q s) = agents s"
proof (cases rule: processQueryBody_cases [of q e s])
  case invalid
  then show ?thesis by (simp add: processQuery_def Let_def)
next
  case (lookupError err)
  then show ?thesis by (simp add: processQuery_def Let_def)
next
  case (hit c q1 s1)
  note d = lookupD [OF hit(2)]
  from d have w: "widgetId q1 = widgetId q" by auto
  show ?thesis
    using d w by (simp add: processQuery_def hit(3))
next
  case (routeError q1 s1 s2 err)
  note d = lookupD [OF routeError(2)]
  from d have w: "widgetId q1 = widgetId q" by auto
  show ?thesis
    using d w by (simp add: processQuery_def routeError(5) routeError(3) Let_def)
next
  case (execError q1 s1 s2 plan err s3)
  note d = lookupD [OF execError(2)]
  note x = executeQueryPlanD [OF execError(5)]
  from d have w: "widgetId q1 = widgetId q" by auto
  show ?thesis
    using d w x by (simp add: processQuery_def execError(6) execError(3) Let_def)
next
  case (cacheError q1 s1 s2 plan r s3 err)
  note d = lookupD [OF cacheError(2)]
  note x = executeQueryPlanD [OF cacheError(5)]
  from d have w: "widgetId q1 = widgetId q" by auto
  show ?thesis
    using d w x by (simp add: processQuery_def cacheError(7) cacheError(3) Let_def)
next
  case (ok q1 s1 s2 plan r s3 q2 s4)
  note d = lookupD [OF ok(2)]
  note x = executeQueryPlanD [OF ok(5)]
  note c = cacheStepD [OF ok(6)]
  from d have w1: "widgetId q1 = widgetId q" by auto
  from c have w2: "widgetId q2 = widgetId q1" by auto
  have del: "delivered (processQuery e q s) = delivered s @ [ResponseReady (widgetId q) r (isoNow e)]"
    using d x c w1 w2 by (simp add: processQuery_def ok(7) ok(3))
  have hist: "\<exists>entry. log_queryId entry = queryId e \<and>
           queryHistory (processQuery e q s) =
             (if length (queryHistory s @ [entry]) > 1000 then tl (queryHistory s @ [entry])
              else queryHistory s @ [entry])"
  proof -
    have "queryHistory (processQuery e q s)
            = queryHistory (logQuery (queryId e) q2 r (duration e) (isoNow e) s)"
      using d x c by (simp add: processQuery_def ok(7) ok(3) queryHistory_logQuery)
    then show ?thesis using queryHistory_logQuery_ex [of "queryId e" q2 r "duration e" "isoNow e" s]
      by simp
  qed
  have cfg: "config (processQuery e q s) = config s" "agents (processQuery e q s) = agents s"
    using d x c by (simp_all add: processQuery_def ok(7) ok(3))
  have cache: "responseCache s k = Some c' \<or>
          (enableCaching (config s) \<and> shouldCacheResponse r \<and> entryResponse c' = r \<and>
           timestamp c' = storeNow e \<and> (\<exists>q''. generateCacheKey q = Inr (k, q'')))"
    if "responseCache (processQuery e q s) k = Some c'" for k c'
  proof -
    from that have "responseCache s4 k = Some c'"
      by (simp add: processQuery_def ok(7))
    with c have "responseCache s3 k = Some c' \<or>
            (enableCaching (config s3) \<and> shouldCacheResponse r \<and> entryResponse c' = r \<and>
             timestamp c' = storeNow e \<and> (\<exists>q''. generateCacheKey q1 = Inr (k, q'')))"
      by blast
    then show ?thesis
    proof
      assume "responseCache s3 k = Some c'"
      then have "responseCache s1 k = Some c'" using x by (simp add: ok(3))
      then show ?thesis using d by blast
    next
      assume a: "enableCaching (config s3) \<and> shouldCacheResponse r \<and> entryResponse c' = r \<and>
             timestamp c' = storeNow e \<and> (\<exists>q''. generateCacheKey q1 = Inr (k, q''))"
      have "config s3 = config s" using x d by (simp add: ok(3))
      moreover have "\<exists>q''. generateCacheKey q = Inr (k, q'')"
        using a d generateCacheKey_either [of q1 q k] by blast
      ultimately show ?thesis using a by simp
    qed
  qed
  from del hist cfg cache show ?thesis by blast
qed

lemmas example_defs =
  fallbackAgents_def exampleAgents_def exampleEnv_def exampleQuery_def exampleActive_def
  initialize_def initializePerformanceTracking_def newOrchestrator_def defaultConfig_def
  initialMetrics_def

section \<open>C7: malformed queries\<close>

lemma validateQuery_iff:
  "validateQuery q \<longleftrightarrow>
     widgetId q \<noteq> None \<and> (\<exists>m. message q = Some m \<and> trim m \<noteq> [])"
  by (auto simp: validateQuery_def split: option.splits)

lemma processQuery_invalid:
  assumes "\<not> validateQuery q"
  shows "processQuery e q s =
           (deliverErrorResponse (widgetId q) InvalidQueryFormat (isoNow e)
              (updatePerformanceMetrics (case queryAgents q of None \<Rightarrow> [] | Some l \<Rightarrow> l)
                 (totalTime e) False s))
           \<lparr>activeQueries := (activeQueries s)(queryId e := None)\<rparr>"
  using assms by (simp add: processQuery_def processQueryBody_def Let_def)

text \<open>
  C7. A query without the \<open>message\<close> field, without the \<open>widgetId\<close> field, or whose
  message trims to the empty string is rejected by \<open>validateQuery\<close>. For a rejected
  query \<open>processQuery\<close> calls no agent, writes neither the cache nor the history, removes
  the active query and dispatches one error response, with the message
  \<open>Invalid query format\<close>. For every query, well-formed or not, \<open>processQuery\<close> ends
  with exactly one response dispatched to the query's widget: no exception leaves it.
\<close>

theorem processQuery_rejects_malformed:
  "((message q = None \<or> widgetId q = None \<or> (\<exists>m. message q = Some m \<and> trim m = []))
      \<longrightarrow> \<not> validateQuery q) \<and>
   (\<not> validateQuery q \<longrightarrow>
      agentCalls (processQuery e q s) = agentCalls s \<and>
      delivered (processQuery e q s) =
        delivered s @
          [ResponseReady (widgetId q)
             (ErrorResponse ''I encountered an error processing your request: Invalid query format. Please try again or contact support if the issue persists.'')
             (isoNow e)] \<and>
      responseCache (processQuery e q s) = responseCache s \<and>
      queryHistory (processQuery e q s) = queryHistory s \<and>
      activeQueries (processQuery e q s) (queryId e) = None) \<and>
   (\<exists>r. delivered (processQuery e q s) = delivered s @ [ResponseReady (widgetId q) r (isoNow e)])"
proof (intro conjI impI)
  assume "message q = None \<or> widgetId q = None \<or> (\<exists>m. message q = Some m \<and> trim m = [])"
  then show "\<not> validateQuery q" by (auto simp: validateQuery_iff)
next
  assume i: "\<not> validateQuery q"
  note p = processQuery_invalid [OF i, of e s]
  show "agentCalls (processQuery e q s) = agentCalls s" by (simp add: p)
  show "delivered (processQuery e q s) =
        delivered s @
          [ResponseReady (widgetId q)
             (ErrorResponse ''I encountered an error processing your request: Invalid query format. Please try again or contact support if the issue persists.'')
             (isoNow e)]" by (simp add: p)
  show "responseCache (processQuery e q s) = responseCache s" by (simp add: p)
  show "queryHistory (processQuery e q s) = queryHistory s" by (simp add: p)
  show "activeQueries (processQuery e q s) (queryId e) = None" by (simp add: p)
next
  show "\<exists>r. delivered (processQuery e q s) = delivered s @ [ResponseReady (widgetId q) r (isoNow e)]"
    using processQuery_summary [of e q s] by blast
qed

text \<open>The theorem at a query whose message is three spaces.\<close>

theorem processQuery_rejects_malformed_witness:
  "message \<lparr> message = Some ''   '', widgetId = Some ''w1'', queryAgents = Some [''workday''],
             queryContext = None \<rparr> = Some ''   '' \<and>
   trim ''   '' = [] \<and>
   \<not> validateQuery \<lparr> message = Some ''   '', widgetId = Some ''w1'',
                      queryAgents = Some [''workday''], queryContext = None \<rparr> \<and>
   agentCalls (processQuery exampleEnv
      \<lparr> message = Some ''   '', widgetId = Some ''w1'', queryAgents = Some [''workday''],
        queryContext = None \<rparr> (initialize exampleAgents newOrchestrator)) = [] \<and>
   delivered (processQuery exampleEnv
      \<lparr> message = Some ''   '', widgetId = Some ''w1'', queryAgents = Some [''workday''],
        queryContext = None \<rparr> (initialize exampleAgents newOrchestrator)) =
     [ResponseReady (Some ''w1'')
        (ErrorResponse ''I encountered an error processing your request: Invalid query format. Please try again or contact support if the issue persists.'')
        ''2024-01-01T00:00:00.000Z'']"
proof -
  let ?q = "\<lparr> message = Some ''   '', widgetId = Some ''w1'', queryAgents = Some [''workday''],
             queryContext = None \<rparr>"
  have t: "trim ''   '' = []" by code_simp
  have m: "message ?q = Some ''   ''" by simp
  from m t have h: "message ?q = None \<or> widgetId ?q = None \<or>
                    (\<exists>m. message ?q = Some m \<and> trim m = [])" by blast
  note inst = processQuery_rejects_malformed
    [of ?q exampleEnv "initialize exampleAgents newOrchestrator"]
  from inst h have v: "\<not> validateQuery ?q" by blast
  from inst v have
    "agentCalls (processQuery exampleEnv ?q (initialize exampleAgents newOrchestrator))
       = agentCalls (initialize exampleAgents newOrchestrator)"
    "delivered (processQuery exampleEnv ?q (initialize exampleAgents newOrchestrator)) =
        delivered (initialize exampleAgents newOrchestrator) @
          [ResponseReady (widgetId ?q)
             (ErrorResponse ''I encountered an error processing your request: Invalid query format. Please try again or contact support if the issue persists.'')
             (isoNow exampleEnv)]"
    by blast+
  then show ?thesis using m t v by (simp add: example_defs)
qed

section \<open>C10: the query history is bounded\<close>

lemma history_step:
  assumes "length h \<le> 1000"
  shows "length (if length (h @ [x]) > 1000 then tl (h @ [x]) else h @ [x]) \<le> 1000"
  using assms by simp

lemma processQuery_history:
  assumes "length (queryHistory s) \<le> 1000"
  shows "length (queryHistory (processQuery e q s)) \<le> 1000"
proof -
  from processQuery_summary [of e q s]
  consider "queryHistory (processQuery e q s) = queryHistory s"
    | entry where "queryHistory (processQuery e q s) =
             (if length (queryHistory s @ [entry]) > 1000 then tl (queryHistory s @ [entry])
              else queryHistory s @ [entry])"
    by blast
  then show ?thesis
  proof cases
    case 1
    then show ?thesis using assms by simp
  next
    case 2
    then show ?thesis using history_step [OF assms] by simp
  qed
qed

lemma processQueries_history:
  "length (queryHistory s) \<le> 1000 \<Longrightarrow> length (queryHistory (processQueries qs s)) \<le> 1000"
  unfolding processQueries_def
  by (induction qs arbitrary: s) (auto simp: processQuery_history)

lemma initialize_empty:
  "queryHistory (initialize m newOrchestrator) = []"
  "responseCache (initialize m newOrchestrator) = Map.empty"
  by (simp_all add: initialize_def initializePerformanceTracking_def newOrchestrator_def)

text \<open>
  C10. If the history holds at most 1000 entries, it holds at most 1000 after
  \<open>logQuery\<close>: below 1000 the new entry is appended, at 1000 the oldest entry is removed
  and the new one appended. \<open>processQuery\<close> preserves the bound, and so the history of
  an orchestrator that started empty never exceeds 1000 entries, whatever queries it
  processed.
\<close>

theorem logQuery_bounded:
  "(length (queryHistory s) \<le> 1000 \<longrightarrow>
      length (queryHistory (logQuery i q r d t s)) \<le> 1000 \<and>
      (length (queryHistory s) < 1000 \<longrightarrow>
         butlast (queryHistory (logQuery i q r d t s)) = queryHistory s) \<and>
      (length (queryHistory s) = 1000 \<longrightarrow>
         butlast (queryHistory (logQuery i q r d t s)) = tl (queryHistory s)) \<and>
      log_queryId (last (queryHistory (logQuery i q r d t s))) = i \<and>
      length (queryHistory (processQuery e q' s)) \<le> 1000) \<and>
   length (queryHistory (processQueries qs (initialize m newOrchestrator))) \<le> 1000"
proof (intro conjI impI)
  assume b: "length (queryHistory s) \<le> 1000"
  show "length (queryHistory (logQuery i q r d t s)) \<le> 1000"
    using b by (simp add: queryHistory_logQuery Let_def)
  show "butlast (queryHistory (logQuery i q r d t s)) = queryHistory s"
    if "length (queryHistory s) < 1000"
    using that by (simp add: queryHistory_logQuery Let_def)
  show "butlast (queryHistory (logQuery i q r d t s)) = tl (queryHistory s)"
    if "length (queryHistory s) = 1000"
  proof -
    from that have ne: "queryHistory s \<noteq> []" by auto
    then show ?thesis using that by (simp add: queryHistory_logQuery Let_def)
  qed
  show "log_queryId (last (queryHistory (logQuery i q r d t s))) = i"
  proof (cases "queryHistory s")
    case Nil
    then show ?thesis by (simp add: queryHistory_logQuery Let_def)
  next
    case (Cons x xs)
    then show ?thesis by (simp add: queryHistory_logQuery Let_def last_tl)
  qed
  show "length (queryHistory (processQuery e q' s)) \<le> 1000"
    using b by (rule processQuery_history)
next
  show "length (queryHistory (processQueries qs (initialize m newOrchestrator))) \<le> 1000"
    by (rule processQueries_history) (simp add: initialize_empty)
qed

text \<open>The theorem at a full history of 1000 entries, and at the empty history.\<close>

theorem logQuery_bounded_witness:
  "length (queryHistory (newOrchestrator\<lparr>queryHistory := replicate 1000 exampleEntry\<rparr>)) = 1000 \<and>
   length (queryHistory (logQuery ''query_2'' exampleQuery (ErrorResponse ''e'') 5 ''t''
      (newOrchestrator\<lparr>queryHistory := replicate 1000 exampleEntry\<rparr>))) \<le> 1000 \<and>
   butlast (queryHistory (logQuery ''query_2'' exampleQuery (ErrorResponse ''e'') 5 ''t''
      (newOrchestrator\<lparr>queryHistory := replicate 1000 exampleEntry\<rparr>))) = replicate 999 exampleEntry \<and>
   length (queryHistory newOrchestrator) < 1000 \<and>
   butlast (queryHistory (logQuery ''query_2'' exampleQuery (ErrorResponse ''e'') 5 ''t''
      newOrchestrator)) = []"
proof -
  let ?s = "newOrchestrator\<lparr>queryHistory := replicate 1000 exampleEntry\<rparr>"
  have l: "length (queryHistory ?s) = 1000" by simp
  then have b: "length (queryHistory ?s) \<le> 1000" by simp
  have t: "tl (queryHistory ?s) = replicate 999 exampleEntry" by (simp add: tl_replicate)
  have n: "length (queryHistory newOrchestrator) < 1000" by (simp add: newOrchestrator_def)
  then have n': "length (queryHistory newOrchestrator) \<le> 1000" by simp
  have e: "queryHistory newOrchestrator = []" by (simp add: newOrchestrator_def)
  from logQuery_bounded [of ?s "''query_2''" exampleQuery "ErrorResponse ''e''" 5 "''t''"] b l
  have "length (queryHistory (logQuery ''query_2'' exampleQuery (ErrorResponse ''e'') 5 ''t'' ?s))
          \<le> 1000"
    "butlast (queryHistory (logQuery ''query_2'' exampleQuery (ErrorResponse ''e'') 5 ''t'' ?s))
       = tl (queryHistory ?s)"
    by blast+
  moreover
  from logQuery_bounded [of newOrchestrator "''query_2''" exampleQuery "ErrorResponse ''e''" 5 "''t''"]
    n n'
  have "butlast (queryHistory (logQuery ''query_2'' exampleQuery (ErrorResponse ''e'') 5 ''t''
          newOrchestrator)) = queryHistory newOrchestrator"
    by blast
  ultimately show ?thesis using l n unfolding t e by blast
qed

section \<open>C8: the metrics of an agent\<close>

lemma updateAgentMetrics_Some:
  assumes "performanceMetrics s a = Some m"
  shows "performanceMetrics (updateAgentMetrics a rt success s) a =
     Some (m\<lparr> totalQueries := totalQueries m + 1,
              lastResponseTime := rt,
              successfulQueries := (if success then successfulQueries m + 1 else successfulQueries m),
              averageResponseTime :=
                (if success then (if averageResponseTime m = 0 then rt
                                  else 0.8 * averageResponseTime m + 0.2 * rt)
                 else averageResponseTime m),
              errorRate :=
                (real (totalQueries m + 1)
                   - real (if success then successfulQueries m + 1 else successfulQueries m))
                  / real (totalQueries m + 1) * 100,
              reliability :=
                max 0 ((100 - (real (totalQueries m + 1)
                          - real (if success then successfulQueries m + 1 else successfulQueries m))
                         / real (totalQueries m + 1) * 100)
                       * (max 0 (100 - rt / 50) / 100)) \<rparr>)"
  using assms by (simp add: updateAgentMetrics_def Let_def mult.commute)

lemma ema_between:
  fixes p x :: real
  shows "min p x \<le> 0.8 * p + 0.2 * x \<and> 0.8 * p + 0.2 * x \<le> max p x"
  by (cases "p \<le> x") (simp_all add: min_def max_def)

text \<open>
  C8. For an agent that has a metrics record, \<open>updateAgentMetrics\<close> counts the query and
  records the sample. On a successful call the new average response time is 0.8 times the
  previous average plus 0.2 times the sample, and the sample itself when the previous
  average is 0; it then lies between the previous average and the sample. On a failed
  call the average is unchanged. The error rate is
  \<open>(totalQueries - successfulQueries) / totalQueries * 100\<close> of the new counters, and the
  reliability is \<open>100 - errorRate\<close> times the response-time factor
  \<open>max 0 (100 - responseTime / 50) / 100\<close>, not below 0. Numbers are real numbers here.
\<close>

theorem updateAgentMetrics_ema:
  assumes "performanceMetrics s a = Some m"
  shows "\<exists>m'. performanceMetrics (updateAgentMetrics a rt success s) a = Some m' \<and>
     totalQueries m' = totalQueries m + 1 \<and>
     lastResponseTime m' = rt \<and>
     successfulQueries m' = (if success then successfulQueries m + 1 else successfulQueries m) \<and>
     averageResponseTime m' =
       (if success then (if averageResponseTime m = 0 then rt
                         else 0.8 * averageResponseTime m + 0.2 * rt)
        else averageResponseTime m) \<and>
     (success \<and> averageResponseTime m \<noteq> 0 \<longrightarrow>
        min (averageResponseTime m) rt \<le> averageResponseTime m' \<and>
        averageResponseTime m' \<le> max (averageResponseTime m) rt) \<and>
     errorRate m' =
       (real (totalQueries m') - real (successfulQueries m')) / real (totalQueries m') * 100 \<and>
     reliability m' = max 0 ((100 - errorRate m') * (max 0 (100 - rt / 50) / 100)) \<and>
     (successfulQueries m \<le> totalQueries m \<longrightarrow> 0 \<le> errorRate m' \<and> errorRate m' \<le> 100) \<and>
     (successfulQueries m \<le> totalQueries m \<and> 0 \<le> rt \<longrightarrow>
        0 \<le> reliability m' \<and> reliability m' \<le> 100 - errorRate m')"
proof -
  define m' where "m' = the (performanceMetrics (updateAgentMetrics a rt success s) a)"
  note u = updateAgentMetrics_Some [OF assms, of rt success]
  have s: "performanceMetrics (updateAgentMetrics a rt success s) a = Some m'"
    unfolding m'_def u by simp
  have f: "totalQueries m' = totalQueries m + 1" "lastResponseTime m' = rt"
    "successfulQueries m' = (if success then successfulQueries m + 1 else successfulQueries m)"
    "averageResponseTime m' =
       (if success then (if averageResponseTime m = 0 then rt
                         else 0.8 * averageResponseTime m + 0.2 * rt)
        else averageResponseTime m)"
    "errorRate m' =
       (real (totalQueries m') - real (successfulQueries m')) / real (totalQueries m') * 100"
    "reliability m' = max 0 ((100 - errorRate m') * (max 0 (100 - rt / 50) / 100))"
    unfolding m'_def u by simp_all
  have b: "min (averageResponseTime m) rt \<le> averageResponseTime m' \<and>
        averageResponseTime m' \<le> max (averageResponseTime m) rt"
    if "success \<and> averageResponseTime m \<noteq> 0"
    using that ema_between [of "averageResponseTime m" rt] by (simp add: f(4))
  have er: "0 \<le> errorRate m' \<and> errorRate m' \<le> 100" if le: "successfulQueries m \<le> totalQueries m"
  proof -
    have t: "0 < real (totalQueries m')" by (simp add: f(1))
    have "successfulQueries m' \<le> totalQueries m'" using le by (simp add: f(1) f(3))
    then have d: "0 \<le> real (totalQueries m') - real (successfulQueries m')"
      and d': "real (totalQueries m') - real (successfulQueries m') \<le> real (totalQueries m')"
      by simp_all
    define x where "x = (real (totalQueries m') - real (successfulQueries m')) / real (totalQueries m')"
    have "0 \<le> x" unfolding x_def using d t by simp
    moreover have "x \<le> 1" unfolding x_def using d' t by (simp add: divide_le_eq_1)
    moreover have "errorRate m' = x * 100" unfolding x_def by (rule f(5))
    ultimately show ?thesis by simp
  qed
  have rel: "0 \<le> reliability m' \<and> reliability m' \<le> 100 - errorRate m'"
    if "successfulQueries m \<le> totalQueries m \<and> 0 \<le> rt"
  proof -
    from that er have e: "0 \<le> 100 - errorRate m'" by simp
    have k: "0 \<le> max 0 (100 - rt / 50) / 100" "max 0 (100 - rt / 50) / 100 \<le> 1"
      using that by (simp_all add: max_def)
    have "(100 - errorRate m') * (max 0 (100 - rt / 50) / 100) \<le> (100 - errorRate m') * 1"
      using e k(2) by (rule mult_left_mono [rotated])
    moreover have "0 \<le> (100 - errorRate m') * (max 0 (100 - rt / 50) / 100)"
      using e k(1) by simp
    ultimately show ?thesis unfolding f(6) by simp
  qed
  from s f b er rel show ?thesis by blast
qed

text \<open>The theorem at a first sample of 700 ms and a second of 200 ms.\<close>

theorem updateAgentMetrics_ema_witness:
  "performanceMetrics (initialize exampleAgents newOrchestrator) ''workday'' = Some initialMetrics \<and>
   performanceMetrics
     (updateAgentMetrics ''workday'' 700 True (initialize exampleAgents newOrchestrator)) ''workday''
     = Some \<lparr> totalQueries = 1, successfulQueries = 1, averageResponseTime = 700, errorRate = 0,
              lastResponseTime = 700, uptime = 100, reliability = 86 \<rparr> \<and>
   performanceMetrics
     (updateAgentMetrics ''workday'' 200 True
        (updateAgentMetrics ''workday'' 700 True (initialize exampleAgents newOrchestrator)))
     ''workday''
     = Some \<lparr> totalQueries = 2, successfulQueries = 2, averageResponseTime = 600, errorRate = 0,
              lastResponseTime = 200, uptime = 100, reliability = 96 \<rparr> \<and>
   (700::real) \<noteq> 0 \<and> (1::nat) \<le> 1 \<and> (0::real) \<le> 200"
proof -
  let ?s0 = "initialize exampleAgents newOrchestrator"
  have a: "performanceMetrics ?s0 ''workday'' = Some initialMetrics"
    by (simp add: example_defs)
  have b: "performanceMetrics (updateAgentMetrics ''workday'' 700 True ?s0) ''workday''
     = Some \<lparr> totalQueries = 1, successfulQueries = 1, averageResponseTime = 700, errorRate = 0,
              lastResponseTime = 700, uptime = 100, reliability = 86 \<rparr>"
    by (simp add: updateAgentMetrics_Some [OF a] initialMetrics_def)
  from updateAgentMetrics_ema [OF b, of 200 True]
  obtain m' where m': "performanceMetrics
     (updateAgentMetrics ''workday'' 200 True (updateAgentMetrics ''workday'' 700 True ?s0))
     ''workday'' = Some m'"
    and "totalQueries m' = 2" "lastResponseTime m' = 200" "successfulQueries m' = 2"
      "averageResponseTime m' = 600" "errorRate m' = 0" "reliability m' = 96"
    by auto
  moreover have "uptime m' = 100"
    using m' by (auto simp: updateAgentMetrics_Some [OF b])
  ultimately have "m' = \<lparr> totalQueries = 2, successfulQueries = 2, averageResponseTime = 600,
                           errorRate = 0, lastResponseTime = 200, uptime = 100, reliability = 96 \<rparr>"
    by simp
  with a b m' show ?thesis by simp
qed

section \<open>C1: the routing plan and offline agents\<close>

text \<open>
  Where the caller names agents, \<open>createRoutingPlan\<close> keeps those that are online and
  throws when none is left.
\<close>

lemma createRoutingPlan_specified:
  assumes "enableSmartRouting (config s)" and "queryAgents q = Some l" and "l \<noteq> []"
  shows "createRoutingPlan q s =
           (if filter (callable s) l = [] then Inl NoAvailableAgents
            else Inr \<lparr> strategy = ''specified'', planAgents = filter (callable s) l,
                       parallel = (length (filter (callable s) l) > 1),
                       timeout = defaultTimeout (config s) \<rparr>)"
proof -
  have "(\<lambda>aid. case agents s aid of None \<Rightarrow> False | Some a \<Rightarrow> agent_status a = ''online'')
          = callable s"
    by (simp add: callable_def fun_eq_iff)
  then show ?thesis using assms by (simp add: createRoutingPlan_def Let_def)
qed

text \<open>
  C1 at the query \<open>How many vacation days do I have?\<close>, sent without an agent list to an
  orchestrator whose agents are the two of \<open>loadFallbackAgents\<close>, both offline. The
  smart-routing path puts \<open>workday\<close> in the plan although its status is \<open>offline\<close>;
  the plan reaches \<open>executeQueryPlan\<close>, and the query fails in \<open>executeSingleQuery\<close>
  with \<open>Agent workday is not available\<close>: no agent is called.
\<close>

theorem createRoutingPlan_smart_offline:
  "createRoutingPlan exampleQuery (initialize fallbackAgents newOrchestrator)
     = Inr \<lparr> strategy = ''smart'', planAgents = [''workday''], parallel = True, timeout = 30000 \<rparr> \<and>
   map_option agent_status (agents (initialize fallbackAgents newOrchestrator) ''workday'')
     = Some ''offline'' \<and>
   agentCalls (processQuery exampleEnv exampleQuery (initialize fallbackAgents newOrchestrator)) = [] \<and>
   delivered (processQuery exampleEnv exampleQuery (initialize fallbackAgents newOrchestrator))
     = [ResponseReady (Some ''w1'')
          (ErrorResponse ''I encountered an error processing your request: Agent workday is not available. Please try again or contact support if the issue persists.'')
          ''2024-01-01T00:00:00.000Z'']"
proof -
  have r: "recommendAgents ''How many vacation days do I have?'' [] = [''workday'']"
    by code_simp
  have t: "trim ''How many vacation days do I have?'' \<noteq> []"
    by code_simp
  have p: "createRoutingPlan exampleQuery (initialize fallbackAgents newOrchestrator)
     = Inr \<lparr> strategy = ''smart'', planAgents = [''workday''], parallel = True, timeout = 30000 \<rparr>"
    using r by (simp add: example_defs createRoutingPlan_def)
  have o: "map_option agent_status (agents (initialize fallbackAgents newOrchestrator) ''workday'')
     = Some ''offline''"
    by (simp add: example_defs)
  have c: "agentCalls (processQuery exampleEnv exampleQuery
             (initialize fallbackAgents newOrchestrator)) = []"
    using r t
    by (simp add: example_defs processQuery_def processQueryBody_def validateQuery_def
          getCachedResponse_def generateCacheKey_def createRoutingPlan_def executeQueryPlan_def
          executeSingleQuery_def Let_def)
  have d: "delivered (processQuery exampleEnv exampleQuery
             (initialize fallbackAgents newOrchestrator))
     = [ResponseReady (Some ''w1'')
          (ErrorResponse ''I encountered an error processing your request: Agent workday is not available. Please try again or contact support if the issue persists.'')
          ''2024-01-01T00:00:00.000Z'']"
    using r t
    by (simp add: example_defs processQuery_def processQueryBody_def validateQuery_def
          getCachedResponse_def generateCacheKey_def createRoutingPlan_def executeQueryPlan_def
          executeSingleQuery_def Let_def)
  from p o c d show ?thesis by (intro conjI)
qed

text \<open>The same facts as the plan's agent list and the agent's availability.\<close>

theorem createRoutingPlan_smart_offline_witness:
  "queryAgents exampleQuery = None \<and>
   map_sum id planAgents (createRoutingPlan exampleQuery (initialize fallbackAgents newOrchestrator))
     = Inr [''workday''] \<and>
   \<not> callable (initialize fallbackAgents newOrchestrator) ''workday''"
proof -
  have n: "queryAgents exampleQuery = None" by (simp add: exampleQuery_def)
  from createRoutingPlan_smart_offline
  have p: "createRoutingPlan exampleQuery (initialize fallbackAgents newOrchestrator)
     = Inr \<lparr> strategy = ''smart'', planAgents = [''workday''], parallel = True, timeout = 30000 \<rparr>"
    and o: "map_option agent_status (agents (initialize fallbackAgents newOrchestrator) ''workday'')
     = Some ''offline''"
    by blast+
  from o have c: "\<not> callable (initialize fallbackAgents newOrchestrator) ''workday''"
    by (auto simp: callable_def split: option.splits)
  from n p c show ?thesis by simp
qed

section \<open>C5: the time to live of a cache entry\<close>

text \<open>
  C5, as the code has it. For a query whose key, the lower-cased and trimmed message, a bar
  and the sorted agent identifiers joined by commas, has an entry in the cache,
  \<open>getCachedResponse\<close> returns the stored response when the entry's age is at most
  300000 ms; when the age is above 300000 ms it returns \<open>null\<close> and deletes the entry.
\<close>

theorem getCachedResponse_ttl:
  assumes m: "message q = Some m"
    and c: "responseCache s
              (trim (toLowerCase m) @ ''|'' @
                 join '','' (sort (case queryAgents q of None \<Rightarrow> [] | Some l \<Rightarrow> l)))
            = Some cached"
  shows "cacheExpiry = 300000 \<and>
         (now - timestamp cached \<le> 300000 \<longrightarrow>
            getCachedResponse now q s
              = Inr (Some (entryResponse cached),
                     q\<lparr>queryAgents := map_option sort (queryAgents q)\<rparr>, s)) \<and>
         (now - timestamp cached > 300000 \<longrightarrow>
            getCachedResponse now q s
              = Inr (None, q\<lparr>queryAgents := map_option sort (queryAgents q)\<rparr>,
                     s\<lparr>responseCache := (responseCache s)
                          (trim (toLowerCase m) @ ''|'' @
                             join '','' (sort (case queryAgents q of None \<Rightarrow> [] | Some l \<Rightarrow> l))
                           := None)\<rparr>))"
  using m c by (simp add: getCachedResponse_def generateCacheKey_def cacheExpiry_def Let_def)

text \<open>The theorem at an entry of age 199000 ms, of age 300000 ms and of age 300001 ms.\<close>

theorem getCachedResponse_ttl_witness:
  "message cachedQuery = Some '' Vacation '' \<and>
   trim (toLowerCase '' Vacation '') @ ''|'' @ join '','' (sort [''workday'']) = ''vacation|workday'' \<and>
   map_sum id fst (getCachedResponse 200000 cachedQuery cachedState)
     = Inr (Some (Single \<lparr> content = ''12 days'', sources = [], confidence = 0.95,
                           responseTime = 700 \<rparr>)) \<and>
   map_sum id fst (getCachedResponse 301000 cachedQuery cachedState)
     = Inr (Some (Single \<lparr> content = ''12 days'', sources = [], confidence = 0.95,
                           responseTime = 700 \<rparr>)) \<and>
   map_sum id fst (getCachedResponse 301001 cachedQuery cachedState) = Inr None \<and>
   map_sum id (\<lambda>r. responseCache (snd (snd r)) ''vacation|workday'')
     (getCachedResponse 301001 cachedQuery cachedState) = Inr None"
proof -
  have k: "trim (toLowerCase '' Vacation '') @ ''|'' @ join '','' (sort [''workday''])
           = ''vacation|workday''"
    by code_simp
  have m: "message cachedQuery = Some '' Vacation ''"
    by (simp add: cachedQuery_def)
  have a: "(case queryAgents cachedQuery of None \<Rightarrow> [] | Some l \<Rightarrow> l) = [''workday'']"
    by (simp add: cachedQuery_def)
  have c: "responseCache cachedState
              (trim (toLowerCase '' Vacation '') @ ''|'' @
                 join '','' (sort (case queryAgents cachedQuery of None \<Rightarrow> [] | Some l \<Rightarrow> l)))
            = Some \<lparr> entryResponse = Single \<lparr> content = ''12 days'', sources = [],
                                               confidence = 0.95, responseTime = 700 \<rparr>,
                     timestamp = 1000,
                     entryQuery = \<lparr> message = Some ''vacation'', widgetId = Some ''w1'',
                                    queryAgents = Some [''workday''], queryContext = None \<rparr> \<rparr>"
    unfolding a k by (simp add: cachedState_def)
  note t = getCachedResponse_ttl [OF m c]
  from t [of 200000] t [of 301000] t [of 301001] k m
  show ?thesis unfolding a k by simp
qed

text \<open>
  C5 as stated fails at an age equal to the time to live: the entry written at time 1000
  is returned at time 301000, when its age is 300000 ms and not below it.
\<close>

theorem getCachedResponse_boundary_counterexample:
  "map_sum id fst (getCachedResponse 301000 cachedQuery cachedState)
     = Inr (Some (Single \<lparr> content = ''12 days'', sources = [], confidence = 0.95,
                           responseTime = 700 \<rparr>)) \<and>
   map_option timestamp (responseCache cachedState ''vacation|workday'') = Some 1000 \<and>
   \<not> (301000 - 1000 < cacheExpiry)"
proof -
  have k: "trim (toLowerCase '' Vacation '') = ''vacation''"
    by code_simp
  have s: "sort [''workday''] = [''workday'']" by simp
  show ?thesis
    by (simp add: getCachedResponse_def generateCacheKey_def cacheExpiry_def cachedQuery_def
          cachedState_def k Let_def)
qed

text \<open>
  At the level of \<open>processQuery\<close>: a valid query whose key has an entry not older than
  the time to live is answered from the cache, without a call to any agent.
\<close>

lemma processQuery_hit:
  assumes v: "validateQuery q" and en: "enableCaching (config s)"
    and k: "generateCacheKey q = Inr (k, q')"
    and c: "responseCache s k = Some cached"
    and a: "lookupNow e - timestamp cached \<le> cacheExpiry"
  shows "delivered (processQuery e q s)
           = delivered s @ [ResponseReady (widgetId q) (entryResponse cached) (isoNow e)] \<and>
         agentCalls (processQuery e q s) = agentCalls s \<and>
         responseCache (processQuery e q s) = responseCache s \<and>
         queryHistory (processQuery e q s) = queryHistory s"
proof -
  have g: "getCachedResponse (lookupNow e) q s = Inr (Some (entryResponse cached), q', s)"
    using k c a by (simp add: getCachedResponse_def)
  have w: "widgetId q' = widgetId q"
    using k by (auto simp: generateCacheKey_def Let_def split: option.splits)
  show ?thesis
    using v en g w by (simp add: processQuery_def processQueryBody_def)
qed

section \<open>C2: parallel dispatch\<close>

text \<open>
  The successful results are the outcomes that did not fail, field for field, each under
  the identifier of its agent; the synthesis reads the orchestrator for the agents' names
  only.
\<close>

lemma successfulResults_records:
  "successfulResults ids (map f ids) =
     map (\<lambda>a. \<lparr> content = content (projr (f a)), sources = sources (projr (f a)),
                 confidence = confidence (projr (f a)),
                 responseTime = responseTime (projr (f a)), agentId = a \<rparr>)
       (filter (\<lambda>a. \<not> isl (f a)) ids)"
  by (induction ids) (auto simp: successfulResults_def split: sum.splits)

lemma synthesizeResponses_agents_only:
  "agents s' = agents s \<Longrightarrow> synthesizeResponses rs s' = synthesizeResponses rs s"
  by (simp add: synthesizeResponses_def split: list.splits)

text \<open>
  C2. \<open>executeParallelQueries\<close> obtains one outcome for every agent of the plan, each the
  outcome that agent's call has on its own, so a failed call does not keep the calls
  after it from being made: every online agent of the plan is called. The query
  fails, with \<open>All agents failed to respond\<close> and with no other error, if and only if
  every call failed, and then nothing is synthesised. If at least one call succeeded, the
  result is the synthesis of the successful results, and these are exactly the outcomes of
  the agents that did not fail, in the plan's order, each with the content, sources,
  confidence and response time its call returned and with its agent's identifier: the
  failed agents are left out and nothing else is. \<open>executeQueryPlan\<close> passes the failure
  on for a parallel plan of more than one agent. The calls are taken in the plan's order.
\<close>

theorem executeParallelQueries_aggregate:
  "fst (allSettled e qd (planAgents plan) s) = map (outcome e qd s) (planAgents plan) \<and>
   agentCalls (snd (executeParallelQueries e qd plan s))
     = agentCalls s @ (if qd \<noteq> None then filter (callable s) (planAgents plan) else []) \<and>
   (fst (executeParallelQueries e qd plan s) = Inl AllAgentsFailed
      \<longleftrightarrow> (\<forall>a \<in> set (planAgents plan). isl (outcome e qd s a))) \<and>
   (\<forall>err. fst (executeParallelQueries e qd plan s) = Inl err \<longrightarrow> err = AllAgentsFailed) \<and>
   errorMessage AllAgentsFailed = ''All agents failed to respond'' \<and>
   ((\<exists>a \<in> set (planAgents plan). \<not> isl (outcome e qd s a)) \<longrightarrow>
      fst (executeParallelQueries e qd plan s)
        = Inr (synthesizeResponses
                 (successfulResults (planAgents plan) (map (outcome e qd s) (planAgents plan)))
                 (snd (allSettled e qd (planAgents plan) s))) \<and>
      map agentId (successfulResults (planAgents plan) (map (outcome e qd s) (planAgents plan)))
        = filter (\<lambda>a. \<not> isl (outcome e qd s a)) (planAgents plan) \<and>
      fst (executeParallelQueries e qd plan s)
        = Inr (synthesizeResponses
                 (map (\<lambda>a. \<lparr> content = content (projr (outcome e qd s a)),
                             sources = sources (projr (outcome e qd s a)),
                             confidence = confidence (projr (outcome e qd s a)),
                             responseTime = responseTime (projr (outcome e qd s a)),
                             agentId = a \<rparr>)
                    (filter (\<lambda>a. \<not> isl (outcome e qd s a)) (planAgents plan)))
                 s)) \<and>
   (parallel plan \<and> 1 < length (planAgents plan) \<longrightarrow>
      (fst (executeQueryPlan e qid plan s) = Inl AllAgentsFailed
         \<longleftrightarrow> (\<forall>a \<in> set (planAgents plan). isl (outcome e (activeQueries s qid) s a))))"
proof (intro conjI)
  show "fst (allSettled e qd (planAgents plan) s) = map (outcome e qd s) (planAgents plan)"
    by (rule allSettled_outcomes)
  show "agentCalls (snd (executeParallelQueries e qd plan s))
     = agentCalls s @ (if qd \<noteq> None then filter (callable s) (planAgents plan) else [])"
    by (simp only: executeParallelQueries_snd allSettled_calls)
  show "fst (executeParallelQueries e qd plan s) = Inl AllAgentsFailed
      \<longleftrightarrow> (\<forall>a \<in> set (planAgents plan). isl (outcome e qd s a))"
    by (simp add: executeParallelQueries_fst)
  show "\<forall>err. fst (executeParallelQueries e qd plan s) = Inl err \<longrightarrow> err = AllAgentsFailed"
    by (simp add: executeParallelQueries_fst)
  show "errorMessage AllAgentsFailed = ''All agents failed to respond''"
    by simp
  show "(\<exists>a \<in> set (planAgents plan). \<not> isl (outcome e qd s a)) \<longrightarrow>
      fst (executeParallelQueries e qd plan s)
        = Inr (synthesizeResponses
                 (successfulResults (planAgents plan) (map (outcome e qd s) (planAgents plan)))
                 (snd (allSettled e qd (planAgents plan) s))) \<and>
      map agentId (successfulResults (planAgents plan) (map (outcome e qd s) (planAgents plan)))
        = filter (\<lambda>a. \<not> isl (outcome e qd s a)) (planAgents plan) \<and>
      fst (executeParallelQueries e qd plan s)
        = Inr (synthesizeResponses
                 (map (\<lambda>a. \<lparr> content = content (projr (outcome e qd s a)),
                             sources = sources (projr (outcome e qd s a)),
                             confidence = confidence (projr (outcome e qd s a)),
                             responseTime = responseTime (projr (outcome e qd s a)),
                             agentId = a \<rparr>)
                    (filter (\<lambda>a. \<not> isl (outcome e qd s a)) (planAgents plan)))
                 s)"
  proof
    assume ex: "\<exists>a \<in> set (planAgents plan). \<not> isl (outcome e qd s a)"
    have r: "fst (executeParallelQueries e qd plan s)
        = Inr (synthesizeResponses
                 (successfulResults (planAgents plan) (map (outcome e qd s) (planAgents plan)))
                 (snd (allSettled e qd (planAgents plan) s)))"
      using ex by (simp add: executeParallelQueries_fst)
    have i: "map agentId (successfulResults (planAgents plan) (map (outcome e qd s) (planAgents plan)))
        = filter (\<lambda>a. \<not> isl (outcome e qd s a)) (planAgents plan)"
      by (rule successfulResults_ids)
    have a: "agents (snd (allSettled e qd (planAgents plan) s)) = agents s" by simp
    have x: "fst (executeParallelQueries e qd plan s)
        = Inr (synthesizeResponses
                 (map (\<lambda>a. \<lparr> content = content (projr (outcome e qd s a)),
                             sources = sources (projr (outcome e qd s a)),
                             confidence = confidence (projr (outcome e qd s a)),
                             responseTime = responseTime (projr (outcome e qd s a)),
                             agentId = a \<rparr>)
                    (filter (\<lambda>a. \<not> isl (outcome e qd s a)) (planAgents plan)))
                 s)"
      unfolding r successfulResults_records synthesizeResponses_agents_only [OF a] ..
    from r i x show "fst (executeParallelQueries e qd plan s)
        = Inr (synthesizeResponses
                 (successfulResults (planAgents plan) (map (outcome e qd s) (planAgents plan)))
                 (snd (allSettled e qd (planAgents plan) s))) \<and>
      map agentId (successfulResults (planAgents plan) (map (outcome e qd s) (planAgents plan)))
        = filter (\<lambda>a. \<not> isl (outcome e qd s a)) (planAgents plan) \<and>
      fst (executeParallelQueries e qd plan s)
        = Inr (synthesizeResponses
                 (map (\<lambda>a. \<lparr> content = content (projr (outcome e qd s a)),
                             sources = sources (projr (outcome e qd s a)),
                             confidence = confidence (projr (outcome e qd s a)),
                             responseTime = responseTime (projr (outcome e qd s a)),
                             agentId = a \<rparr>)
                    (filter (\<lambda>a. \<not> isl (outcome e qd s a)) (planAgents plan)))
                 s)"
      by (intro conjI)
  qed
  show "parallel plan \<and> 1 < length (planAgents plan) \<longrightarrow>
      (fst (executeQueryPlan e qid plan s) = Inl AllAgentsFailed
         \<longleftrightarrow> (\<forall>a \<in> set (planAgents plan). isl (outcome e (activeQueries s qid) s a)))"
  proof
    assume p: "parallel plan \<and> 1 < length (planAgents plan)"
    have "fst (executeQueryPlan e qid plan s) =
            map_sum id Synthesized (fst (executeParallelQueries e (activeQueries s qid) plan s))"
      using p by (simp add: executeQueryPlan_def Let_def split: prod.splits sum.splits)
    then show "fst (executeQueryPlan e qid plan s) = Inl AllAgentsFailed
         \<longleftrightarrow> (\<forall>a \<in> set (planAgents plan). isl (outcome e (activeQueries s qid) s a))"
      by (simp add: executeParallelQueries_fst)
  qed
qed

text \<open>
  The theorem at a plan of an online agent, an offline agent and an unknown agent, where
  the result is the online agent's answer; at a plan of the last two, where the query
  fails; and at the first plan with both known agents online, where the result is the
  synthesis of their two answers and the unknown agent is left out.
\<close>

theorem executeParallelQueries_aggregate_witness:
  "\<not> isl (outcome exampleEnv (Some exampleActive) (initialize exampleAgents newOrchestrator) ''workday'') \<and>
   isl (outcome exampleEnv (Some exampleActive) (initialize exampleAgents newOrchestrator) ''policy'') \<and>
   isl (outcome exampleEnv (Some exampleActive) (initialize exampleAgents newOrchestrator) ''ghost'') \<and>
   parallel mixedPlan \<and> 1 < length (planAgents mixedPlan) \<and>
   fst (executeParallelQueries exampleEnv (Some exampleActive) mixedPlan
          (initialize exampleAgents newOrchestrator)) \<noteq> Inl AllAgentsFailed \<and>
   map agentId (successfulResults (planAgents mixedPlan)
       (map (outcome exampleEnv (Some exampleActive) (initialize exampleAgents newOrchestrator))
          (planAgents mixedPlan))) = [''workday''] \<and>
   agentCalls (snd (executeParallelQueries exampleEnv (Some exampleActive) mixedPlan
          (initialize exampleAgents newOrchestrator))) = [''workday''] \<and>
   fst (executeParallelQueries exampleEnv (Some exampleActive) failingPlan
          (initialize exampleAgents newOrchestrator)) = Inl AllAgentsFailed \<and>
   fst (executeParallelQueries exampleEnv (Some exampleActive) mixedPlan
          (initialize exampleAgents newOrchestrator))
     = Inr \<lparr> content = ''You have 12 vacation days remaining this year. Your next scheduled PTO is March 15-17 (3 days). Would you like me to help you submit a new vacation request?'',
             sources = [\<lparr> name = ''Workday'', description = ''Employee vacation balance from Workday system'' \<rparr>,
                        \<lparr> name = ''PTO Policy'', description = ''Company paid time off policy document'' \<rparr>],
             confidence = 0.95, responseAgents = [''workday''], synthesized = False \<rparr> \<and>
   fst (executeParallelQueries exampleEnv (Some exampleActive) mixedPlan
          (initialize onlineAgents newOrchestrator))
     = Inr \<lparr> content = ''**Workday Assistant:** You have 12 vacation days remaining this year. Your next scheduled PTO is March 15-17 (3 days). Would you like me to help you submit a new vacation request?''
                       @ [CHR 0x0A, CHR 0x0A]
                       @ ''**Policy Bot:** I can help you find information about company policies, procedures, and compliance requirements. What specific topic are you looking for?'',
             sources = [\<lparr> name = ''Workday'', description = ''Employee vacation balance from Workday system'' \<rparr>,
                        \<lparr> name = ''PTO Policy'', description = ''Company paid time off policy document'' \<rparr>,
                        \<lparr> name = ''Policy Bot'', description = ''Knowledge base system'' \<rparr>],
             confidence = 0.825, responseAgents = [''workday'', ''policy''], synthesized = True \<rparr>"
proof -
  let ?s = "initialize exampleAgents newOrchestrator"
  let ?t = "initialize onlineAgents newOrchestrator"
  let ?o = "outcome exampleEnv (Some exampleActive) ?s"
  let ?p = "outcome exampleEnv (Some exampleActive) ?t"
  let ?hr = "\<lparr> content = ''You have 12 vacation days remaining this year. Your next scheduled PTO is March 15-17 (3 days). Would you like me to help you submit a new vacation request?'',
             sources = [\<lparr> name = ''Workday'', description = ''Employee vacation balance from Workday system'' \<rparr>,
                        \<lparr> name = ''PTO Policy'', description = ''Company paid time off policy document'' \<rparr>],
             confidence = 0.95, responseTime = 700 \<rparr>"
  let ?kb = "\<lparr> content = ''I can help you find information about company policies, procedures, and compliance requirements. What specific topic are you looking for?'',
             sources = [\<lparr> name = ''Policy Bot'', description = ''Knowledge base system'' \<rparr>],
             confidence = 0.7, responseTime = 700 \<rparr>"
  have ow: "?o ''workday'' = Inr ?hr"
    by (simp add: example_defs executeSingleQuery_def callAgent_def simulateHRResponse_def
          toLowerCase_def toLowerCaseChar_def Let_def)
  have w: "\<not> isl (?o ''workday'')" by (simp add: ow)
  have p: "isl (?o ''policy'')"
    by (simp add: example_defs executeSingleQuery_def)
  have g: "isl (?o ''ghost'')"
    by (simp add: example_defs executeSingleQuery_def)
  have pw: "?p ''workday'' = Inr ?hr"
    by (simp add: example_defs onlineAgents_def executeSingleQuery_def callAgent_def
          simulateHRResponse_def toLowerCase_def toLowerCaseChar_def Let_def)
  have pp: "?p ''policy'' = Inr ?kb"
    by (simp add: example_defs onlineAgents_def executeSingleQuery_def callAgent_def
          simulateKnowledgeResponse_def toLowerCase_def toLowerCaseChar_def Let_def)
  have pg: "isl (?p ''ghost'')"
    by (simp add: example_defs onlineAgents_def executeSingleQuery_def)
  have c: "callable ?s ''workday''" "\<not> callable ?s ''policy''" "\<not> callable ?s ''ghost''"
    by (simp_all add: example_defs callable_def)
  have m: "parallel mixedPlan \<and> 1 < length (planAgents mixedPlan)"
    by (simp add: mixedPlan_def)
  have am: "planAgents mixedPlan = [''workday'', ''policy'', ''ghost'']"
    by (simp add: mixedPlan_def)
  have af: "planAgents failingPlan = [''policy'', ''ghost'']"
    by (simp add: failingPlan_def)
  have na: "agents ?t ''workday'' = Some \<lparr> agent_id = ''workday'', agent_name = ''Workday Assistant'',
                       agent_type = ''hr'', agent_status = ''online'' \<rparr>"
    "agents ?t ''policy'' = Some \<lparr> agent_id = ''policy'', agent_name = ''Policy Bot'',
                      agent_type = ''knowledge'', agent_status = ''online'' \<rparr>"
    by (simp_all add: example_defs onlineAgents_def)
  note tm = executeParallelQueries_aggregate [of exampleEnv "Some exampleActive" mixedPlan ?s]
  note tf = executeParallelQueries_aggregate [of exampleEnv "Some exampleActive" failingPlan ?s]
  note tp = executeParallelQueries_aggregate [of exampleEnv "Some exampleActive" mixedPlan ?t]
  have e: "\<exists>a \<in> set (planAgents mixedPlan). \<not> isl (?o a)"
    using w by (simp add: am)
  have e': "\<exists>a \<in> set (planAgents mixedPlan). \<not> isl (?p a)"
    using pw by (simp add: am)
  have a: "\<forall>a \<in> set (planAgents failingPlan). isl (?o a)"
    using p g by (simp add: af)
  from tm e have 1: "fst (executeParallelQueries exampleEnv (Some exampleActive) mixedPlan ?s)
                       \<noteq> Inl AllAgentsFailed"
    by blast
  from tm e have "map agentId (successfulResults (planAgents mixedPlan)
       (map ?o (planAgents mixedPlan))) = filter (\<lambda>a. \<not> isl (?o a)) (planAgents mixedPlan)"
    by blast
  then have 2: "map agentId (successfulResults (planAgents mixedPlan)
       (map ?o (planAgents mixedPlan))) = [''workday'']"
    using w p g by (simp add: am)
  from tm have "agentCalls (snd (executeParallelQueries exampleEnv (Some exampleActive) mixedPlan ?s))
     = agentCalls ?s @ (if Some exampleActive \<noteq> None
                         then filter (callable ?s) (planAgents mixedPlan) else [])"
    by blast
  then have 3: "agentCalls (snd (executeParallelQueries exampleEnv (Some exampleActive) mixedPlan ?s))
     = [''workday'']"
    using c by (simp add: am) (simp add: example_defs)
  from tf a have 4: "fst (executeParallelQueries exampleEnv (Some exampleActive) failingPlan ?s)
                       = Inl AllAgentsFailed"
    by blast
  from tm e have "fst (executeParallelQueries exampleEnv (Some exampleActive) mixedPlan ?s)
        = Inr (synthesizeResponses
                 (map (\<lambda>a. \<lparr> content = content (projr (?o a)), sources = sources (projr (?o a)),
                             confidence = confidence (projr (?o a)),
                             responseTime = responseTime (projr (?o a)), agentId = a \<rparr>)
                    (filter (\<lambda>a. \<not> isl (?o a)) (planAgents mixedPlan)))
                 ?s)"
    by blast
  then have 5: "fst (executeParallelQueries exampleEnv (Some exampleActive) mixedPlan ?s)
     = Inr \<lparr> content = ''You have 12 vacation days remaining this year. Your next scheduled PTO is March 15-17 (3 days). Would you like me to help you submit a new vacation request?'',
             sources = [\<lparr> name = ''Workday'', description = ''Employee vacation balance from Workday system'' \<rparr>,
                        \<lparr> name = ''PTO Policy'', description = ''Company paid time off policy document'' \<rparr>],
             confidence = 0.95, responseAgents = [''workday''], synthesized = False \<rparr>"
    using p g by (simp add: am ow synthesizeResponses_def)
  from tp e' have "fst (executeParallelQueries exampleEnv (Some exampleActive) mixedPlan ?t)
        = Inr (synthesizeResponses
                 (map (\<lambda>a. \<lparr> content = content (projr (?p a)), sources = sources (projr (?p a)),
                             confidence = confidence (projr (?p a)),
                             responseTime = responseTime (projr (?p a)), agentId = a \<rparr>)
                    (filter (\<lambda>a. \<not> isl (?p a)) (planAgents mixedPlan)))
                 ?t)"
    by blast
  then have 6: "fst (executeParallelQueries exampleEnv (Some exampleActive) mixedPlan ?t)
     = Inr \<lparr> content = ''**Workday Assistant:** You have 12 vacation days remaining this year. Your next scheduled PTO is March 15-17 (3 days). Would you like me to help you submit a new vacation request?''
                       @ [CHR 0x0A, CHR 0x0A]
                       @ ''**Policy Bot:** I can help you find information about company policies, procedures, and compliance requirements. What specific topic are you looking for?'',
             sources = [\<lparr> name = ''Workday'', description = ''Employee vacation balance from Workday system'' \<rparr>,
                        \<lparr> name = ''PTO Policy'', description = ''Company paid time off policy document'' \<rparr>,
                        \<lparr> name = ''Policy Bot'', description = ''Knowledge base system'' \<rparr>],
             confidence = 0.825, responseAgents = [''workday'', ''policy''], synthesized = True \<rparr>"
    using pg by (simp add: am pw pp na synthesizeResponses_def uniqueSources_firstByName Let_def)
  from w p g m 1 2 3 4 5 6 show ?thesis by (intro conjI) (simp_all only: simp_thms)
qed

section \<open>C6: what enters the cache\<close>

lemma getCachedResponse_hit:
  assumes "getCachedResponse now q s = Inr (Some c, q', s')"
  shows "s' = s \<and> (\<exists>k q'' cached. generateCacheKey q = Inr (k, q'') \<and>
           responseCache s k = Some cached \<and> entryResponse cached = c)"
  using assms
  by (auto simp: getCachedResponse_def split: sum.splits option.splits if_splits prod.splits)

lemma getCachedResponse_retain:
  assumes "getCachedResponse now q s = Inr (r, q', s')"
    and "responseCache s k = Some c" and "now - timestamp c \<le> cacheExpiry"
  shows "responseCache s' k = Some c"
  using assms
  by (auto simp: getCachedResponse_def split: sum.splits option.splits if_splits prod.splits)

lemma lookup_retain:
  assumes "(if enableCaching (config s) then getCachedResponse now q s else Inr (None, q, s))
             = Inr (r, q', s')"
    and "responseCache s k = Some c" and "now - timestamp c \<le> cacheExpiry"
  shows "responseCache s' k = Some c"
proof (cases "enableCaching (config s)")
  case True
  with assms(1) have "getCachedResponse now q s = Inr (r, q', s')" by simp
  from getCachedResponse_retain [OF this assms(2,3)] show ?thesis .
next
  case False
  with assms show ?thesis by simp
qed

lemma cacheResponse_retain:
  assumes "cacheResponse stamp now q r s = Inr (q', s')"
    and "now - stamp \<le> cacheExpiry"
    and "responseCache s k = Some c" and "now - timestamp c \<le> cacheExpiry"
  shows "\<exists>c'. responseCache s' k = Some c'"
  using assms
  by (auto simp: cacheResponse_def cleanExpiredCache_def
           split: sum.splits option.splits if_splits prod.splits)

lemma cacheResponse_inserts:
  assumes "cacheResponse stamp now q r s = Inr (q', s')"
    and "now - stamp \<le> cacheExpiry"
  shows "\<exists>k q'' c. generateCacheKey q = Inr (k, q'') \<and> responseCache s' k = Some c \<and>
           entryResponse c = r \<and> timestamp c = stamp"
  using assms
  by (auto simp: cacheResponse_def cleanExpiredCache_def
           split: sum.splits option.splits if_splits prod.splits)

lemma cacheStep_retain:
  assumes "(if enableCaching (config s) \<and> shouldCacheResponse r
            then cacheResponse stamp now q r s else Inr (q, s)) = Inr (q', s')"
    and "now - stamp \<le> cacheExpiry"
    and "responseCache s k = Some c" and "now - timestamp c \<le> cacheExpiry"
  shows "\<exists>c'. responseCache s' k = Some c'"
proof (cases "enableCaching (config s) \<and> shouldCacheResponse r")
  case True
  with assms(1) have "cacheResponse stamp now q r s = Inr (q', s')" by simp
  from cacheResponse_retain [OF this assms(2-4)] show ?thesis .
next
  case False
  with assms show ?thesis by auto
qed

lemma responseCache_activeQueries_update [simp]:
  "responseCache (s\<lparr>activeQueries := a\<rparr>) = responseCache s"
  by simp

lemma processQuery_retains:
  assumes k: "responseCache s k = Some c"
    and l: "lookupNow e - timestamp c \<le> cacheExpiry"
    and n: "cleanNow e - timestamp c \<le> cacheExpiry"
    and f: "cleanNow e - storeNow e \<le> cacheExpiry"
  shows "\<exists>c'. responseCache (processQuery e q s) k = Some c'"
proof (cases rule: processQueryBody_cases [of q e s])
  case invalid
  then show ?thesis using k by (simp add: processQuery_def Let_def)
next
  case (lookupError err)
  then show ?thesis using k by (simp add: processQuery_def Let_def)
next
  case (hit c0 q1 s1)
  from lookup_retain [OF hit(2) k l] show ?thesis
    by (simp add: processQuery_def hit(3))
next
  case (routeError q1 s1 s2 err)
  from lookup_retain [OF routeError(2) k l] show ?thesis
    by (simp add: processQuery_def routeError(5) routeError(3) Let_def)
next
  case (execError q1 s1 s2 plan err s3)
  from lookup_retain [OF execError(2) k l] executeQueryPlanD [OF execError(5)] show ?thesis
    by (simp add: processQuery_def execError(6) execError(3) Let_def)
next
  case (cacheError q1 s1 s2 plan r s3 err)
  from lookup_retain [OF cacheError(2) k l] executeQueryPlanD [OF cacheError(5)] show ?thesis
    by (simp add: processQuery_def cacheError(7) cacheError(3) Let_def)
next
  case (ok q1 s1 s2 plan r s3 q2 s4)
  from lookup_retain [OF ok(2) k l] executeQueryPlanD [OF ok(5)]
  have "responseCache s3 k = Some c" by (simp add: ok(3))
  from cacheStep_retain [OF ok(6) f this n] show ?thesis
    by (simp add: processQuery_def ok(7))
qed

lemma processQuery_inserts:
  assumes d: "delivered (processQuery e q s) = delivered s @ [ResponseReady w r t]"
    and en: "enableCaching (config s)" and g: "shouldCacheResponse r"
    and f: "cleanNow e - storeNow e \<le> cacheExpiry"
  shows "\<exists>k q'' c. generateCacheKey q = Inr (k, q'') \<and>
           responseCache (processQuery e q s) k = Some c \<and> entryResponse c = r"
proof (cases rule: processQueryBody_cases [of q e s])
  case invalid
  then have "delivered (processQuery e q s) =
               delivered s @ [ResponseReady (widgetId q)
                  (ErrorResponse (''I encountered an error processing your request: ''
                     @ errorMessage InvalidQueryFormat
                     @ ''. Please try again or contact support if the issue persists.'')) (isoNow e)]"
    by (simp add: processQuery_def Let_def)
  with d have "responseError r" by auto
  with g show ?thesis by (simp add: shouldCacheResponse_def)
next
  case (lookupError err)
  then have "delivered (processQuery e q s) =
               delivered s @ [ResponseReady (widgetId q)
                  (ErrorResponse (''I encountered an error processing your request: ''
                     @ errorMessage err
                     @ ''. Please try again or contact support if the issue persists.'')) (isoNow e)]"
    by (simp add: processQuery_def Let_def)
  with d have "responseError r" by auto
  with g show ?thesis by (simp add: shouldCacheResponse_def)
next
  case (hit c0 q1 s1)
  from hit(2) en have h: "getCachedResponse (lookupNow e) q s = Inr (Some c0, q1, s1)" by simp
  from getCachedResponse_hit [OF h]
  obtain k q'' cached where s1: "s1 = s" and key: "generateCacheKey q = Inr (k, q'')"
    and c: "responseCache s k = Some cached" "entryResponse cached = c0"
    by blast
  have "delivered (processQuery e q s) = delivered s @ [ResponseReady (widgetId q1) c0 (isoNow e)]"
    by (simp add: processQuery_def hit(3) s1)
  with d have r: "r = c0" by simp
  have "responseCache (processQuery e q s) k = Some cached"
    using c by (simp add: processQuery_def hit(3) s1)
  with key c r show ?thesis by blast
next
  case (routeError q1 s1 s2 err)
  note l = lookupD [OF routeError(2)]
  have "delivered (processQuery e q s) =
               delivered s @ [ResponseReady (widgetId q1)
                  (ErrorResponse (''I encountered an error processing your request: ''
                     @ errorMessage err
                     @ ''. Please try again or contact support if the issue persists.'')) (isoNow e)]"
    using l by (simp add: processQuery_def routeError(5) routeError(3) Let_def)
  with d have "responseError r" by auto
  with g show ?thesis by (simp add: shouldCacheResponse_def)
next
  case (execError q1 s1 s2 plan err s3)
  note l = lookupD [OF execError(2)]
  note x = executeQueryPlanD [OF execError(5)]
  have "delivered (processQuery e q s) =
               delivered s @ [ResponseReady (widgetId q1)
                  (ErrorResponse (''I encountered an error processing your request: ''
                     @ errorMessage err
                     @ ''. Please try again or contact support if the issue persists.'')) (isoNow e)]"
    using l x by (simp add: processQuery_def execError(6) execError(3) Let_def)
  with d have "responseError r" by auto
  with g show ?thesis by (simp add: shouldCacheResponse_def)
next
  case (cacheError q1 s1 s2 plan r0 s3 err)
  note l = lookupD [OF cacheError(2)]
  note x = executeQueryPlanD [OF cacheError(5)]
  have "delivered (processQuery e q s) =
               delivered s @ [ResponseReady (widgetId q1)
                  (ErrorResponse (''I encountered an error processing your request: ''
                     @ errorMessage err
                     @ ''. Please try again or contact support if the issue persists.'')) (isoNow e)]"
    using l x by (simp add: processQuery_def cacheError(7) cacheError(3) Let_def)
  with d have "responseError r" by auto
  with g show ?thesis by (simp add: shouldCacheResponse_def)
next
  case (ok q1 s1 s2 plan r0 s3 q2 s4)
  note l = lookupD [OF ok(2)]
  note x = executeQueryPlanD [OF ok(5)]
  note c = cacheStepD [OF ok(6)]
  have "delivered (processQuery e q s) = delivered s @ [ResponseReady (widgetId q2) r0 (isoNow e)]"
    using l x c by (simp add: processQuery_def ok(7) ok(3))
  with d have r: "r = r0" by simp
  have "config s3 = config s" using l x by (simp add: ok(3))
  with en g r ok(6) have "cacheResponse (storeNow e) (cleanNow e) q1 r s3 = Inr (q2, s4)"
    by simp
  from cacheResponse_inserts [OF this f]
  obtain k q'' c' where key1: "generateCacheKey q1 = Inr (k, q'')"
    and ins: "responseCache s4 k = Some c'" "entryResponse c' = r"
    by blast
  from l key1 generateCacheKey_either [of q1 q k q''] obtain q3 where "generateCacheKey q = Inr (k, q3)"
    by blast
  moreover have "responseCache (processQuery e q s) k = Some c'"
    using ins by (simp add: processQuery_def ok(7))
  ultimately show ?thesis using ins by blast
qed


lemma shouldCacheResponse_iff:
  "shouldCacheResponse r \<longleftrightarrow>
     \<not> responseError r \<and> (\<exists>x. responseConfidence r = Some x \<and> 0.7 < x)"
  by (auto simp: shouldCacheResponse_def split: option.splits)

lemma processQuery_cache_new:
  assumes "responseCache (processQuery e q s) k = Some c" and "responseCache s k \<noteq> Some c"
  shows "enableCaching (config s) \<and> shouldCacheResponse (entryResponse c) \<and>
         timestamp c = storeNow e \<and>
         (\<exists>q''. generateCacheKey q = Inr (k, q'')) \<and>
         delivered (processQuery e q s)
           = delivered s @ [ResponseReady (widgetId q) (entryResponse c) (isoNow e)]"
proof -
  from processQuery_summary [of e q s] obtain r where
    d: "delivered (processQuery e q s) = delivered s @ [ResponseReady (widgetId q) r (isoNow e)]"
    and c: "\<forall>k c. responseCache (processQuery e q s) k = Some c \<longrightarrow>
          responseCache s k = Some c \<or>
          (enableCaching (config s) \<and> shouldCacheResponse r \<and> entryResponse c = r \<and>
           timestamp c = storeNow e \<and> (\<exists>q''. generateCacheKey q = Inr (k, q'')))"
    by blast
  from c assms have "enableCaching (config s) \<and> shouldCacheResponse r \<and> entryResponse c = r \<and>
           timestamp c = storeNow e \<and> (\<exists>q''. generateCacheKey q = Inr (k, q''))"
    by blast
  with d show ?thesis by auto
qed

lemma processQuery_cache_invariant:
  assumes "\<forall>k c. responseCache s k = Some c \<longrightarrow> shouldCacheResponse (entryResponse c)"
  shows "\<forall>k c. responseCache (processQuery e q s) k = Some c \<longrightarrow>
           shouldCacheResponse (entryResponse c)"
  using assms processQuery_cache_new [of e q s] by blast

lemma processQueries_cache_invariant:
  "\<forall>k c. responseCache s k = Some c \<longrightarrow> shouldCacheResponse (entryResponse c) \<Longrightarrow>
   \<forall>k c. responseCache (processQueries qs s) k = Some c \<longrightarrow> shouldCacheResponse (entryResponse c)"
  unfolding processQueries_def
proof (induction qs arbitrary: s)
  case Nil
  then show ?case by simp
next
  case (Cons x qs)
  obtain e q where x: "x = (e, q)" by (cases x)
  from processQuery_cache_invariant [OF Cons.prems, of e q]
  show ?case using Cons.IH [of "processQuery e q s"] by (simp add: x)
qed

text \<open>
  C6. An entry that is in the cache after \<open>processQuery\<close> and was not there before is
  the response this call delivered, stored with caching enabled, and it is not an error
  response and has a confidence above 0.7. So if every entry is such a response
  before the call, every entry is one after it, and every entry of a cache that started
  empty is one, whatever queries were processed. Nothing but age removes an entry:
  an entry not older than the time to live is still in the cache, or replaced under its
  key, after the call. And nothing but the gate keeps a response out: with caching
  enabled, a delivered response that is not an error and has a confidence above 0.7 is in
  the cache after the call, under the query's key. Confidences are real numbers here.
\<close>

theorem cache_gate:
  "(\<forall>k c. responseCache (processQuery e q s) k = Some c \<and> responseCache s k \<noteq> Some c \<longrightarrow>
      enableCaching (config s) \<and>
      \<not> responseError (entryResponse c) \<and>
      (\<exists>x. responseConfidence (entryResponse c) = Some x \<and> 0.7 < x) \<and>
      timestamp c = storeNow e \<and>
      delivered (processQuery e q s)
        = delivered s @ [ResponseReady (widgetId q) (entryResponse c) (isoNow e)]) \<and>
   ((\<forall>k c. responseCache s k = Some c \<longrightarrow>
       \<not> responseError (entryResponse c) \<and>
       (\<exists>x. responseConfidence (entryResponse c) = Some x \<and> 0.7 < x)) \<longrightarrow>
    (\<forall>k c. responseCache (processQuery e q s) k = Some c \<longrightarrow>
       \<not> responseError (entryResponse c) \<and>
       (\<exists>x. responseConfidence (entryResponse c) = Some x \<and> 0.7 < x))) \<and>
   (\<forall>k c. responseCache (processQueries qs (initialize m newOrchestrator)) k = Some c \<longrightarrow>
       \<not> responseError (entryResponse c) \<and>
       (\<exists>x. responseConfidence (entryResponse c) = Some x \<and> 0.7 < x)) \<and>
   (\<forall>k c. responseCache s k = Some c \<and> lookupNow e - timestamp c \<le> cacheExpiry \<and>
      cleanNow e - timestamp c \<le> cacheExpiry \<and> cleanNow e - storeNow e \<le> cacheExpiry \<longrightarrow>
      (\<exists>c'. responseCache (processQuery e q s) k = Some c')) \<and>
   (\<forall>w r t. delivered (processQuery e q s) = delivered s @ [ResponseReady w r t] \<and>
      enableCaching (config s) \<and> \<not> responseError r \<and>
      (\<exists>x. responseConfidence r = Some x \<and> 0.7 < x) \<and>
      cleanNow e - storeNow e \<le> cacheExpiry \<longrightarrow>
      (\<exists>k q'' c. generateCacheKey q = Inr (k, q'') \<and>
         responseCache (processQuery e q s) k = Some c \<and> entryResponse c = r))"
proof (intro conjI)
  show "\<forall>k c. responseCache (processQuery e q s) k = Some c \<and> responseCache s k \<noteq> Some c \<longrightarrow>
      enableCaching (config s) \<and>
      \<not> responseError (entryResponse c) \<and>
      (\<exists>x. responseConfidence (entryResponse c) = Some x \<and> 0.7 < x) \<and>
      timestamp c = storeNow e \<and>
      delivered (processQuery e q s)
        = delivered s @ [ResponseReady (widgetId q) (entryResponse c) (isoNow e)]"
    using processQuery_cache_new [of e q s] unfolding shouldCacheResponse_iff by blast
  show "(\<forall>k c. responseCache s k = Some c \<longrightarrow>
       \<not> responseError (entryResponse c) \<and>
       (\<exists>x. responseConfidence (entryResponse c) = Some x \<and> 0.7 < x)) \<longrightarrow>
    (\<forall>k c. responseCache (processQuery e q s) k = Some c \<longrightarrow>
       \<not> responseError (entryResponse c) \<and>
       (\<exists>x. responseConfidence (entryResponse c) = Some x \<and> 0.7 < x))"
    using processQuery_cache_invariant [of s e q] unfolding shouldCacheResponse_iff by blast
  show "\<forall>k c. responseCache (processQueries qs (initialize m newOrchestrator)) k = Some c \<longrightarrow>
       \<not> responseError (entryResponse c) \<and>
       (\<exists>x. responseConfidence (entryResponse c) = Some x \<and> 0.7 < x)"
  proof -
    have "\<forall>k c. responseCache (initialize m newOrchestrator) k = Some c \<longrightarrow>
            shouldCacheResponse (entryResponse c)"
      by (simp add: initialize_empty)
    from processQueries_cache_invariant [OF this, of qs]
    show ?thesis unfolding shouldCacheResponse_iff by blast
  qed
  show "\<forall>k c. responseCache s k = Some c \<and> lookupNow e - timestamp c \<le> cacheExpiry \<and>
      cleanNow e - timestamp c \<le> cacheExpiry \<and> cleanNow e - storeNow e \<le> cacheExpiry \<longrightarrow>
      (\<exists>c'. responseCache (processQuery e q s) k = Some c')"
    using processQuery_retains [of s _ _ e q] by blast
  show "\<forall>w r t. delivered (processQuery e q s) = delivered s @ [ResponseReady w r t] \<and>
      enableCaching (config s) \<and> \<not> responseError r \<and>
      (\<exists>x. responseConfidence r = Some x \<and> 0.7 < x) \<and>
      cleanNow e - storeNow e \<le> cacheExpiry \<longrightarrow>
      (\<exists>k q'' c. generateCacheKey q = Inr (k, q'') \<and>
         responseCache (processQuery e q s) k = Some c \<and> entryResponse c = r)"
    using processQuery_inserts [of e q s] unfolding shouldCacheResponse_iff by blast
qed

lemmas processQuery_eval_defs =
  processQuery_def processQueryBody_def validateQuery_def getCachedResponse_def
  generateCacheKey_def createRoutingPlan_def executeQueryPlan_def executeSingleQuery_def
  callAgent_def simulateHRResponse_def shouldCacheResponse_def cacheResponse_def
  cleanExpiredCache_def cacheExpiry_def deliverResponse_def updatePerformanceMetrics_def
  updateAgentMetrics_def logQuery_def

text \<open>
  The theorem at the query \<open>How many vacation days do I have?\<close> with \<open>workday\<close> online:
  the answer, of confidence 0.95, enters the empty cache and is the response delivered.
\<close>

theorem cache_gate_witness:
  "responseCache (initialize exampleAgents newOrchestrator) ''how many vacation days do i have?|''
     = None \<and>
   enableCaching (config (initialize exampleAgents newOrchestrator)) \<and>
   cleanNow exampleEnv - storeNow exampleEnv \<le> cacheExpiry \<and>
   map_option timestamp
     (responseCache (processQuery exampleEnv exampleQuery (initialize exampleAgents newOrchestrator))
        ''how many vacation days do i have?|'') = Some 2000 \<and>
   map_option (\<lambda>c. responseConfidence (entryResponse c))
     (responseCache (processQuery exampleEnv exampleQuery (initialize exampleAgents newOrchestrator))
        ''how many vacation days do i have?|'') = Some (Some 0.95) \<and>
   delivered (processQuery exampleEnv exampleQuery (initialize exampleAgents newOrchestrator))
     = [ResponseReady (Some ''w1'')
          (entryResponse (the (responseCache
             (processQuery exampleEnv exampleQuery (initialize exampleAgents newOrchestrator))
             ''how many vacation days do i have?|'')))
          ''2024-01-01T00:00:00.000Z'']"
proof -
  let ?s = "initialize exampleAgents newOrchestrator"
  let ?k = "''how many vacation days do i have?|''"
  have r: "recommendAgents ''How many vacation days do I have?'' [] = [''workday'']"
    by code_simp
  have t: "trim ''How many vacation days do I have?'' \<noteq> []"
    by code_simp
  have n: "trim (toLowerCase ''How many vacation days do I have?'')
             = ''how many vacation days do i have?''"
    by code_simp
  have i: "includes_str (toLowerCase ''How many vacation days do I have?'') ''vacation''"
    by code_simp
  have a: "responseCache ?s ?k = None" by (simp add: example_defs)
  have b: "enableCaching (config ?s)" by (simp add: example_defs)
  have f: "cleanNow exampleEnv - storeNow exampleEnv \<le> cacheExpiry"
    by (simp add: example_defs cacheExpiry_def)
  have ts: "map_option timestamp (responseCache (processQuery exampleEnv exampleQuery ?s) ?k)
              = Some 2000"
    using r t n i by (simp add: example_defs processQuery_eval_defs Let_def)
  have cf: "map_option (\<lambda>c. responseConfidence (entryResponse c))
              (responseCache (processQuery exampleEnv exampleQuery ?s) ?k) = Some (Some 0.95)"
    using r t n i by (simp add: example_defs processQuery_eval_defs Let_def)
  from ts obtain c where c: "responseCache (processQuery exampleEnv exampleQuery ?s) ?k = Some c"
    by auto
  with a have "responseCache (processQuery exampleEnv exampleQuery ?s) ?k = Some c \<and>
               responseCache ?s ?k \<noteq> Some c" by simp
  with cache_gate [of exampleEnv exampleQuery ?s]
  have "delivered (processQuery exampleEnv exampleQuery ?s)
        = delivered ?s @ [ResponseReady (widgetId exampleQuery) (entryResponse c) (isoNow exampleEnv)]"
    by blast
  then have d: "delivered (processQuery exampleEnv exampleQuery ?s)
     = [ResponseReady (Some ''w1'')
          (entryResponse (the (responseCache (processQuery exampleEnv exampleQuery ?s) ?k)))
          ''2024-01-01T00:00:00.000Z'']"
    unfolding c by (simp add: example_defs)
  from a b f ts cf d show ?thesis by (intro conjI)
qed

end
